theory Spec2Isabelle
  imports Complex_Main
begin

section \<open>The admission queue (app/database/operations.py)\<close>

text \<open>
  A row of the table \<open>article_queue\<close> (database/models.py, class ArticleQueue). The
  column names carry the prefix \<open>queue_\<close>, since the workflow state has fields of
  the same names. Times are readings of the clock (\<open>datetime.utcnow()\<close>), given
  to each operation as an argument. The table is the list of its rows in the order of
  insertion.
\<close>

record ArticleQueue =
  queue_session_id :: string
  queue_position :: int
  queue_status :: string
  queue_created_at :: nat
  queue_started_at :: "nat option"
  queue_completed_at :: "nat option"

datatype db_error = IntegrityError

text \<open>\<open>session.query(ArticleQueue).filter_by(status=st).count()\<close>\<close>

definition count_status :: "string \<Rightarrow> ArticleQueue list \<Rightarrow> int" where
  "count_status st q = int (length (filter (\<lambda>r. queue_status r = st) q))"

text \<open>
  \<open>add_to_queue\<close>: the position is the number of rows in status \<open>queued\<close> plus
  one. The column \<open>session_id\<close> is declared unique, so the commit of a second row
  for a session raises and the table stays as it was.
\<close>

definition add_to_queue ::
  "nat \<Rightarrow> ArticleQueue list \<Rightarrow> string \<Rightarrow> db_error + (ArticleQueue list \<times> int)" where
  "add_to_queue now q sid =
     (let position = count_status ''queued'' q + 1;
          queue_item = \<lparr>queue_session_id = sid, queue_position = position,
                        queue_status = ''queued'', queue_created_at = now,
                        queue_started_at = None, queue_completed_at = None\<rparr>
      in if sid \<in> set (map queue_session_id q) then Inl IntegrityError
         else Inr (q @ [queue_item], position))"

text \<open>
  \<open>update_queue_status\<close>: the first row of the session gets the new status, and a
  time stamp when the status is \<open>processing\<close> or \<open>completed\<close>. No other row and
  no position is written.
\<close>

fun update_queue_status ::
  "nat \<Rightarrow> ArticleQueue list \<Rightarrow> string \<Rightarrow> string \<Rightarrow> ArticleQueue list" where
  "update_queue_status now [] sid st = []"
| "update_queue_status now (r # q) sid st =
     (if queue_session_id r = sid then
        (let r1 = r\<lparr>queue_status := st\<rparr>;
             r2 = (if st = ''processing'' then r1\<lparr>queue_started_at := Some now\<rparr>
                   else if st = ''completed'' then r1\<lparr>queue_completed_at := Some now\<rparr>
                   else r1)
         in r2 # q)
      else r # update_queue_status now q sid st)"

text \<open>\<open>get_queue_position\<close>: the position column of the session's first row.\<close>

fun get_queue_position :: "ArticleQueue list \<Rightarrow> string \<Rightarrow> int option" where
  "get_queue_position [] sid = None"
| "get_queue_position (r # q) sid =
     (if queue_session_id r = sid then Some (queue_position r) else get_queue_position q sid)"

text \<open>
  Three sessions: \<open>a\<close> and \<open>b\<close> are enqueued, \<open>a\<close> starts processing, \<open>c\<close> is
  enqueued. The result is the table at the end and the three positions handed out.
\<close>

definition queue_scenario :: "db_error + (ArticleQueue list \<times> int \<times> int \<times> int)" where
  "queue_scenario =
     (case add_to_queue 0 [] ''a'' of Inl e \<Rightarrow> Inl e | Inr (q1, pa) \<Rightarrow>
      (case add_to_queue 1 q1 ''b'' of Inl e \<Rightarrow> Inl e | Inr (q2, pb) \<Rightarrow>
       (case add_to_queue 3 (update_queue_status 2 q2 ''a'' ''processing'') ''c'' of
          Inl e \<Rightarrow> Inl e
        | Inr (q4, pc) \<Rightarrow> Inr (q4, pa, pb, pc))))"

section \<open>Time travel (app/api/routes.py)\<close>

text \<open>
  The state of a checkpoint is a JSON object: a Python dict, modelled as the list of its
  items in insertion order, with unique keys. \<open>dict_set\<close> is the assignment
  \<open>d[k] = v\<close>: an existing key keeps its place, a new key goes to the end.
\<close>

fun dict_set :: "('k \<times> 'v) list \<Rightarrow> 'k \<Rightarrow> 'v \<Rightarrow> ('k \<times> 'v) list" where
  "dict_set [] k v = [(k, v)]"
| "dict_set (p # ps) k v = (if fst p = k then (k, v) # ps else p # dict_set ps k v)"

definition dict_get :: "('k \<times> 'v) list \<Rightarrow> 'k \<Rightarrow> 'v option" where
  "dict_get d k = map_of d k"

definition dict_has :: "('k \<times> 'v) list \<Rightarrow> 'k \<Rightarrow> bool" where
  "dict_has d k = (k \<in> set (map fst d))"

text \<open>
  The loop \<open>for key, value in request.modifications.items(): if key in state:
  state[key] = value\<close>.
\<close>

fun apply_modifications :: "('k \<times> 'v) list \<Rightarrow> ('k \<times> 'v) list \<Rightarrow> ('k \<times> 'v) list" where
  "apply_modifications state [] = state"
| "apply_modifications state ((key, val) # ms) =
     apply_modifications (if dict_has state key then dict_set state key val else state) ms"

datatype http_error = HTTP_404

text \<open>
  \<open>time_travel\<close> up to the call of the workflow: the argument \<open>checkpoint\<close> is what
  \<open>db_ops.get_checkpoint\<close> returned (its \<open>state_data\<close>, or nothing), \<open>new_article_id\<close>
  is the identifier \<open>article_<12 hex digits of a uuid4>\<close> as a value of the dict's
  value type. The result is the state handed to \<open>workflow_manager.run\<close>.
\<close>

definition time_travel ::
  "(string \<times> 'v) list option \<Rightarrow> (string \<times> 'v) list \<Rightarrow> 'v \<Rightarrow> http_error + (string \<times> 'v) list" where
  "time_travel checkpoint modifications new_article_id =
     (case checkpoint of
        None \<Rightarrow> Inl HTTP_404
      | Some state \<Rightarrow>
          Inr (dict_set (apply_modifications state modifications) ''article_id'' new_article_id))"

section \<open>Values, settings and the outside world\<close>

text \<open>
  Scores are Python floats; they are modelled as real numbers, so the rounding of the
  sum and of the mean is not part of the model. A JSON value that the workflow only
  stores and passes on is a \<open>jval\<close>. The judgment that
  \<open>generator.validate_content\<close> returns is a JSON object: its \<open>score\<close> entry (a
  number when present, as the adapter's contract and the type of \<open>scores\<close> have it)
  and its other entries.
\<close>

datatype jval = JNull | JBool bool | JInt int | JNum real | JStr string

record validator_result =
  j_score :: "real option"
  j_fields :: "string \<rightharpoonup> jval"

text \<open>config.py, class Settings (the defaults).\<close>

definition MAX_RETRIES :: int where "MAX_RETRIES = 5"

definition MIN_SCORE_THRESHOLD :: real where "MIN_SCORE_THRESHOLD = 7.5"

definition PUBLISH_THRESHOLD :: real where "PUBLISH_THRESHOLD = 8.5"

text \<open>
  What a call to an outside collaborator does: it returns a value or raises, with the
  text \<open>str(e)\<close> of the exception.
\<close>

datatype 'a reply = Returns 'a | Raises string

text \<open>
  Everything the workflow does not decide itself. The three methods of the Generator
  Adapter answer by the number of the call (the count of adapter calls made before it in
  the run): since the reply to each call is arbitrary, every way in which a real adapter
  could depend on its arguments is covered. \<open>uuid4_hex\<close> is the stream of
  \<open>uuid.uuid4().hex\<close>; \<open>title_match\<close> is group 1 of
  \<open>re.search(r'^#\s+(.+)$', content, re.MULTILINE)\<close>; \<open>latex_to_image\<close> tells whether
  the rendering of an equation to a file succeeds (it raises otherwise);
  \<open>expand_template\<close> is the processing of backslash escapes that \<open>re.sub\<close> applies
  to its replacement string (\<open>None\<close> when it raises \<open>re.error\<close>).
\<close>

record environment =
  generate_article :: "nat \<Rightarrow> string reply"
  regenerate_content :: "nat \<Rightarrow> string reply"
  validate_content :: "nat \<Rightarrow> validator_result reply"
  uuid4_hex :: "nat \<Rightarrow> string"
  title_match :: "string \<Rightarrow> string option"
  latex_to_image :: "string \<Rightarrow> string \<Rightarrow> bool \<Rightarrow> bool"
  expand_template :: "string \<Rightarrow> string option"

section \<open>Equations (app/utils/latex_handler.py)\<close>

text \<open>
  Strings are lists of characters. The two regular expressions of \<open>extract_equations\<close>
  are written out as scanners. \<open>find_close\<close> is the lazy \<open>(.*?)\$\$\<close> under
  \<open>re.DOTALL\<close>: the text up to the first \<open>$$\<close>, and the text after it.
\<close>

fun find_close :: "string \<Rightarrow> (string \<times> string) option" where
  "find_close (a # b # cs) =
     (if a = CHR ''$'' \<and> b = CHR ''$'' then Some ([], cs)
      else (case find_close (b # cs) of None \<Rightarrow> None | Some (g, rest) \<Rightarrow> Some (a # g, rest)))"
| "find_close cs = None"

text \<open>Group 1 of a match of \<open>\$\$(.*?)\$\$\<close> that starts at the head of the text.\<close>

fun display_at :: "string \<Rightarrow> string option" where
  "display_at (a # b # cs) =
     (if a = CHR ''$'' \<and> b = CHR ''$'' then map_option fst (find_close cs) else None)"
| "display_at cs = None"

text \<open>
  Group 1 of a match of \<open>\$([^\$]+?)\$\<close> that starts at the head of the text: one or
  more characters other than \<open>$\<close> (a newline is one of them), up to the next \<open>$\<close>.
\<close>

fun inline_at :: "string \<Rightarrow> string option" where
  "inline_at (a # b # cs) =
     (if a = CHR ''$'' \<and> b \<noteq> CHR ''$'' \<and> dropWhile (\<lambda>c. c \<noteq> CHR ''$'') (b # cs) \<noteq> []
      then Some (takeWhile (\<lambda>c. c \<noteq> CHR ''$'') (b # cs)) else None)"
| "inline_at cs = None"

text \<open>
  \<open>re.finditer\<close>: the matches from left to right, without overlap, each as (group 1,
  \<open>match.start()\<close>). The first argument of \<open>finditer\<close> counts the characters of
  the last match that are still to be stepped over, the second is the position of the
  head of the text; \<open>wrap\<close> is the number of characters of a match around its group.
\<close>

fun finditer :: "(string \<Rightarrow> string option) \<Rightarrow> nat \<Rightarrow> nat \<Rightarrow> nat \<Rightarrow> string \<Rightarrow> (string \<times> nat) list" where
  "finditer match_at wrap skip pos [] = []"
| "finditer match_at wrap skip pos (c # cs) =
     (if 0 < skip then finditer match_at wrap (skip - 1) (pos + 1) cs
      else (case match_at (c # cs) of
              None \<Rightarrow> finditer match_at wrap 0 (pos + 1) cs
            | Some g \<Rightarrow> (g, pos) # finditer match_at wrap (length g + wrap - 1) (pos + 1) cs))"

text \<open>
  \<open>s.replace(old, new)\<close> for a non-empty \<open>old\<close>: every occurrence from left to
  right, without overlap. The first argument again counts characters to step over.
\<close>

fun replace_from :: "nat \<Rightarrow> string \<Rightarrow> string \<Rightarrow> string \<Rightarrow> string" where
  "replace_from skip old new [] = []"
| "replace_from skip old new (c # cs) =
     (if 0 < skip then replace_from (skip - 1) old new cs
      else if take (length old) (c # cs) = old
           then new @ replace_from (length old - 1) old new cs
           else c # replace_from 0 old new cs)"

definition str_replace :: "string \<Rightarrow> string \<Rightarrow> string \<Rightarrow> string" where
  "str_replace s old new = replace_from 0 old new s"

text \<open>
  \<open>str.strip()\<close>: the white space of ASCII (tab, line feed, vertical tab, form feed,
  carriage return, the four separators 28 to 31, and the space).
\<close>

definition is_space :: "char \<Rightarrow> bool" where
  "is_space c = ((of_char c :: nat) \<in> {9, 10, 11, 12, 13, 28, 29, 30, 31, 32})"

definition strip :: "string \<Rightarrow> string" where
  "strip s = rev (dropWhile is_space (rev (dropWhile is_space s)))"

text \<open>
  \<open>extract_equations\<close>: the display equations of the content first, then the inline
  equations of the content from which every display match has been deleted. An
  equation is (text, mode, position).
\<close>

definition extract_equations :: "string \<Rightarrow> (string \<times> string \<times> nat) list" where
  "extract_equations content_text =
     (let display = finditer display_at 4 0 0 content_text;
          content_without_display =
            foldl (\<lambda>txt (g, pos). str_replace txt (''$$'' @ g @ ''$$'') []) content_text display
      in map (\<lambda>(g, pos). (strip g, ''display'', pos)) display
         @ map (\<lambda>(g, pos). (strip g, ''inline'', pos)) (finditer inline_at 2 0 0 content_without_display))"

text \<open>\<open>str(n)\<close> for a natural number.\<close>

definition digit :: "nat \<Rightarrow> char" where
  "digit k = ''0123456789'' ! k"

fun str_nat :: "nat \<Rightarrow> string" where
  "str_nat n = (if n < 10 then [digit n] else str_nat (n div 10) @ [digit (n mod 10)])"

text \<open>
  \<open>re.sub(re.escape(old), repl, s, count=1)\<close> for a non-empty \<open>old\<close>: the replacement
  is expanded first (which may raise), then the first occurrence of \<open>old\<close> is replaced.
\<close>

fun replace_first :: "string \<Rightarrow> string \<Rightarrow> string \<Rightarrow> string" where
  "replace_first old new [] = []"
| "replace_first old new (c # cs) =
     (if take (length old) (c # cs) = old then new @ drop (length old) (c # cs)
      else c # replace_first old new cs)"

definition re_sub_first :: "environment \<Rightarrow> string \<Rightarrow> string \<Rightarrow> string \<Rightarrow> string option" where
  "re_sub_first env old repl s =
     (case expand_template env repl of None \<Rightarrow> None | Some r \<Rightarrow> Some (replace_first old r s))"

text \<open>
  The file name \<open>f"eq_{article_id}_{idx}.png"\<close>, the markdown image reference
  \<open>f"\n\n![Equation {idx + 1}](/static/images/{filename})\n\n"\<close> and the text that the
  substitution looks for.
\<close>

definition equation_filename :: "string \<Rightarrow> nat \<Rightarrow> string" where
  "equation_filename aid idx = ''eq_'' @ aid @ ''_'' @ str_nat idx @ ''.png''"

definition image_reference :: "string \<Rightarrow> nat \<Rightarrow> string" where
  "image_reference filename idx =
     [CHR 0x0A, CHR 0x0A] @ ''![Equation '' @ str_nat (idx + 1) @ ''](/static/images/''
       @ filename @ '')'' @ [CHR 0x0A, CHR 0x0A]"

definition equation_pattern :: "string \<Rightarrow> string \<Rightarrow> string" where
  "equation_pattern mode equation =
     (if mode = ''display'' then ''$$'' @ equation @ ''$$'' else ''$'' @ equation @ ''$'')"

text \<open>
  The loop of \<open>process_article_equations\<close> over \<open>enumerate(equations)\<close>. An equation
  whose rendering or whose substitution raises is skipped: the content and the list of
  images stay as they are.
\<close>

fun process_loop ::
  "environment \<Rightarrow> string \<Rightarrow> nat \<Rightarrow> (string \<times> string \<times> nat) list \<Rightarrow> string \<Rightarrow> string list
     \<Rightarrow> string \<times> string list" where
  "process_loop env aid idx [] modified_content equation_images =
     (modified_content, equation_images)"
| "process_loop env aid idx ((equation, mode, position) # rest) modified_content equation_images =
     (let filename = equation_filename aid idx in
      if \<not> latex_to_image env equation filename (mode = ''display'')
      then process_loop env aid (idx + 1) rest modified_content equation_images
      else
        (case re_sub_first env (equation_pattern mode equation) (image_reference filename idx)
                modified_content of
           None \<Rightarrow> process_loop env aid (idx + 1) rest modified_content equation_images
         | Some m \<Rightarrow> process_loop env aid (idx + 1) rest m (equation_images @ [filename])))"

definition process_article_equations :: "environment \<Rightarrow> string \<Rightarrow> string \<Rightarrow> string \<times> nat" where
  "process_article_equations env content_text aid =
     (let equations = extract_equations content_text in
      if equations = [] then (content_text, 0)
      else (let (modified_content, equation_images) =
                  process_loop env aid 0 equations content_text []
            in (modified_content, length equation_images)))"

section \<open>The workflow state (agents/state.py)\<close>

text \<open>
  \<open>ArticleState\<close>, field by field. \<open>scores\<close> is a dict whose order of insertion
  matters (the policy's \<open>min\<close> goes through it in that order), so it is a list of
  items; the other dicts are maps. Times are readings of a clock.
\<close>

record ArticleState =
  session_id :: string
  article_id :: string
  topic :: string
  author :: string
  target_audience :: string
  article_type :: string
  tone :: string
  requirements :: "string \<rightharpoonup> jval"
  content :: string
  title :: string
  metadata :: "string \<rightharpoonup> jval"
  scores :: "(string \<times> real) list"
  overall_score :: real
  feedback :: "string \<rightharpoonup> validator_result"
  retry_counts :: "string \<rightharpoonup> int"
  needs_regeneration :: bool
  failed_nodes :: "string list"
  current_node :: string
  iteration :: int
  has_code :: bool
  has_math :: bool
  status :: string
  error :: "string option"
  started_at :: nat
  updated_at :: nat

text \<open>\<open>d.get(k, 0)\<close> on the retry counters.\<close>

definition get_count :: "(string \<rightharpoonup> int) \<Rightarrow> string \<Rightarrow> int" where
  "get_count d k = (case d k of None \<Rightarrow> 0 | Some n \<Rightarrow> n)"

section \<open>The store (database/models.py, app/database/operations.py)\<close>

text \<open>
  The rows of the tables the workflow writes, without their time stamp columns and
  without the auto-incremented row ids. Articles are keyed by their id; the other
  tables are lists of rows in the order of insertion. A write succeeds unless a
  declared key is violated.
\<close>

record Article =
  article_session_id :: string
  article_title :: string
  article_content :: string
  article_author :: string
  article_metadata :: "string \<rightharpoonup> jval"
  article_status :: string
  article_overall_score :: real

record ArticleVersion =
  version_article_id :: string
  version_number :: int
  version_content :: string
  version_scores :: "(string \<times> real) list"
  version_node_name :: string

record ValidationLog =
  log_article_id :: string
  log_node_name :: string
  log_score :: real
  log_feedback :: validator_result
  log_retry_count :: int
  log_status :: string

record Checkpoint =
  checkpoint_id :: string
  checkpoint_article_id :: string
  checkpoint_node_name :: string
  checkpoint_state_data :: ArticleState

record database =
  articles :: "string \<rightharpoonup> Article"
  article_versions :: "ArticleVersion list"
  validation_logs :: "ValidationLog list"
  checkpoints :: "Checkpoint list"

definition create_article ::
  "database \<Rightarrow> string \<Rightarrow> string \<Rightarrow> string \<Rightarrow> string \<Rightarrow> (string \<rightharpoonup> jval) \<Rightarrow> db_error + database" where
  "create_article d aid sid ttl auth meta =
     (if aid \<in> dom (articles d) then Inl IntegrityError
      else Inr (d\<lparr>articles := (articles d)(aid \<mapsto>
              \<lparr>article_session_id = sid, article_title = ttl, article_content = [],
               article_author = auth, article_metadata = meta,
               article_status = ''processing'', article_overall_score = 0\<rparr>)\<rparr>))"

definition update_article ::
  "database \<Rightarrow> string \<Rightarrow> string option \<Rightarrow> string option \<Rightarrow> real option \<Rightarrow> database" where
  "update_article d aid new_content new_status new_score =
     (case articles d aid of
        None \<Rightarrow> d
      | Some article \<Rightarrow>
          (let a1 = (case new_content of None \<Rightarrow> article
                     | Some c \<Rightarrow> article\<lparr>article_content := c\<rparr>);
               a2 = (case new_status of None \<Rightarrow> a1 | Some st \<Rightarrow> a1\<lparr>article_status := st\<rparr>);
               a3 = (case new_score of None \<Rightarrow> a2
                     | Some x \<Rightarrow> a2\<lparr>article_overall_score := x\<rparr>)
           in d\<lparr>articles := (articles d)(aid \<mapsto> a3)\<rparr>))"

text \<open>\<open>session.query(ArticleVersion).filter_by(article_id=aid)\<close>, in insertion order.\<close>

definition versions_of :: "database \<Rightarrow> string \<Rightarrow> ArticleVersion list" where
  "versions_of d aid = filter (\<lambda>v. version_article_id v = aid) (article_versions d)"

definition create_version ::
  "database \<Rightarrow> string \<Rightarrow> string \<Rightarrow> (string \<times> real) list \<Rightarrow> string \<Rightarrow> database" where
  "create_version d aid txt scs node_name =
     (let version_count = int (length (versions_of d aid))
      in d\<lparr>article_versions := article_versions d @
             [\<lparr>version_article_id = aid, version_number = version_count + 1,
               version_content = txt, version_scores = scs,
               version_node_name = node_name\<rparr>]\<rparr>)"

definition add_validation_log ::
  "database \<Rightarrow> string \<Rightarrow> string \<Rightarrow> real \<Rightarrow> validator_result \<Rightarrow> int \<Rightarrow> string \<Rightarrow> database" where
  "add_validation_log d aid node_name score fb retry_count st =
     d\<lparr>validation_logs := validation_logs d @
         [\<lparr>log_article_id = aid, log_node_name = node_name, log_score = score,
           log_feedback = fb, log_retry_count = retry_count, log_status = st\<rparr>]\<rparr>"

definition save_checkpoint ::
  "database \<Rightarrow> string \<Rightarrow> string \<Rightarrow> string \<Rightarrow> ArticleState \<Rightarrow> db_error + database" where
  "save_checkpoint d cid aid node_name state_data =
     (if cid \<in> set (map checkpoint_id (checkpoints d)) then Inl IntegrityError
      else Inr (d\<lparr>checkpoints := checkpoints d @
              [\<lparr>checkpoint_id = cid, checkpoint_article_id = aid,
                checkpoint_node_name = node_name, checkpoint_state_data = state_data\<rparr>]\<rparr>))"

text \<open>\<open>str(e)\<close> of a store error.\<close>

definition str_db_error :: "db_error \<Rightarrow> string" where
  "str_db_error e = ''IntegrityError''"

text \<open>
  What a run works on besides its state: the store, the number of Generator Adapter
  calls made so far, and the number of uuids drawn so far.
\<close>

record world =
  db :: database
  calls :: nat
  uuids :: nat

section \<open>The validator stages (validators/*.py, app/validators/*.py)\<close>

text \<open>
  The eight validators share one body, which \<open>validator_body\<close> writes once: \<open>name\<close> is
  the key of the stage, \<open>label\<close> its capitalised name in the error text, and
  \<open>store\<close> what the stage writes into the metadata (the length and the readability
  stages do; the others write nothing there). Everything happens inside the stage's
  \<open>try\<close>: when the adapter raises, nothing but \<open>status\<close> and \<open>error\<close> is written.
\<close>

definition validator_body ::
  "string \<Rightarrow> string \<Rightarrow> (validator_result \<Rightarrow> (string \<rightharpoonup> jval) \<Rightarrow> (string \<rightharpoonup> jval))
     \<Rightarrow> environment \<Rightarrow> ArticleState \<Rightarrow> world \<Rightarrow> ArticleState \<times> world" where
  "validator_body name label store env state w =
     (case validate_content env (calls w) of
        Raises e \<Rightarrow> (state\<lparr>status := ''error'', error := Some e\<rparr>, w\<lparr>calls := calls w + 1\<rparr>)
      | Returns result \<Rightarrow>
          (let score = (case j_score result of None \<Rightarrow> 0 | Some x \<Rightarrow> x);
               s1 = state\<lparr>scores := dict_set (scores state) name score,
                          feedback := (feedback state)(name \<mapsto> result)\<rparr>;
               s2 = s1\<lparr>metadata := store result (metadata s1)\<rparr>;
               w1 = w\<lparr>calls := calls w + 1,
                      db := add_validation_log (db w) (article_id s2) name score result
                              (get_count (retry_counts s2) name)
                              (if score \<ge> MIN_SCORE_THRESHOLD then ''passed'' else ''failed'')\<rparr>
           in if score < MIN_SCORE_THRESHOLD
              then (let s3 = s2\<lparr>failed_nodes := failed_nodes s2 @ [name],
                                 retry_counts := (retry_counts s2)
                                    (name \<mapsto> get_count (retry_counts s2) name + 1)\<rparr>
                    in if get_count (retry_counts s3) name \<ge> MAX_RETRIES
                       then (s3\<lparr>status := ''failed'',
                                 error := Some (label @ '' validation failed after ''
                                            @ str_nat (nat MAX_RETRIES) @ '' retries'')\<rparr>, w1)
                       else (s3, w1))
              else (s2, w1)))"

definition no_metadata :: "validator_result \<Rightarrow> (string \<rightharpoonup> jval) \<Rightarrow> (string \<rightharpoonup> jval)" where
  "no_metadata result m = m"

text \<open>\<open>result.get(k, dflt)\<close> on the entries of a judgment other than the score.\<close>

definition field_or :: "validator_result \<Rightarrow> string \<Rightarrow> jval \<Rightarrow> jval" where
  "field_or result k dflt = (case j_fields result k of None \<Rightarrow> dflt | Some v \<Rightarrow> v)"

definition length_metadata :: "validator_result \<Rightarrow> (string \<rightharpoonup> jval) \<Rightarrow> (string \<rightharpoonup> jval)" where
  "length_metadata result m =
     m(''word_count'' \<mapsto> field_or result ''word_count'' (JInt 0),
       ''read_time'' \<mapsto> field_or result ''estimated_read_time'' (JStr ''N/A''))"

definition readability_metadata ::
  "validator_result \<Rightarrow> (string \<rightharpoonup> jval) \<Rightarrow> (string \<rightharpoonup> jval)" where
  "readability_metadata result m =
     m(''flesch_reading_ease'' \<mapsto> field_or result ''flesch_reading_ease'' (JInt 0),
       ''gunning_fog_index'' \<mapsto> field_or result ''gunning_fog_index'' (JInt 0))"

definition validate_structure :: "environment \<Rightarrow> ArticleState \<Rightarrow> world \<Rightarrow> ArticleState \<times> world" where
  "validate_structure = validator_body ''structure'' ''Structure'' no_metadata"

definition validate_language :: "environment \<Rightarrow> ArticleState \<Rightarrow> world \<Rightarrow> ArticleState \<times> world" where
  "validate_language = validator_body ''language'' ''Language'' no_metadata"

definition validate_grammar :: "environment \<Rightarrow> ArticleState \<Rightarrow> world \<Rightarrow> ArticleState \<times> world" where
  "validate_grammar = validator_body ''grammar'' ''Grammar'' no_metadata"

definition validate_length :: "environment \<Rightarrow> ArticleState \<Rightarrow> world \<Rightarrow> ArticleState \<times> world" where
  "validate_length = validator_body ''length'' ''Length'' length_metadata"

definition validate_depth :: "environment \<Rightarrow> ArticleState \<Rightarrow> world \<Rightarrow> ArticleState \<times> world" where
  "validate_depth = validator_body ''depth'' ''Depth'' no_metadata"

definition validate_readability :: "environment \<Rightarrow> ArticleState \<Rightarrow> world \<Rightarrow> ArticleState \<times> world" where
  "validate_readability = validator_body ''readability'' ''Readability'' readability_metadata"

text \<open>
  \<open>check_has_math\<close> is \<open>re.search(r'\$.*?\$', content)\<close>: a \<open>$\<close> followed, with no
  line feed in between, by another \<open>$\<close>.
\<close>

fun dollar_ahead :: "string \<Rightarrow> bool" where
  "dollar_ahead [] = False"
| "dollar_ahead (c # cs) =
     (if c = CHR ''$'' then True else if c = CHR 0x0A then False else dollar_ahead cs)"

fun check_has_math :: "string \<Rightarrow> bool" where
  "check_has_math [] = False"
| "check_has_math (c # cs) = ((c = CHR ''$'' \<and> dollar_ahead cs) \<or> check_has_math cs)"

text \<open>The feedback that the math stage writes when there is nothing to validate.\<close>

definition math_not_applicable :: validator_result where
  "math_not_applicable =
     \<lparr>j_score = Some 10,
      j_fields = [''feedback'' \<mapsto> JStr ''No mathematical content to validate'']\<rparr>"

definition validate_math :: "environment \<Rightarrow> ArticleState \<Rightarrow> world \<Rightarrow> ArticleState \<times> world" where
  "validate_math env state0 w =
     (let found = check_has_math (content state0);
          state = state0\<lparr>has_math := found\<rparr>
      in if \<not> found
         then (state\<lparr>scores := dict_set (scores state) ''math'' 10,
                     feedback := (feedback state)(''math'' \<mapsto> math_not_applicable)\<rparr>, w)
         else validator_body ''math'' ''Math'' no_metadata env state w)"

text \<open>
  \<open>check_has_code\<close> is \<open>re.search(r'```[\s\S]*?```', content)\<close>: a fence of three
  backquotes followed, anywhere after it, by another.
\<close>

fun fence_ahead :: "string \<Rightarrow> bool" where
  "fence_ahead (a # b # c # cs) =
     ((a = CHR 0x60 \<and> b = CHR 0x60 \<and> c = CHR 0x60) \<or> fence_ahead (b # c # cs))"
| "fence_ahead cs = False"

fun check_has_code :: "string \<Rightarrow> bool" where
  "check_has_code (a # b # c # cs) =
     ((a = CHR 0x60 \<and> b = CHR 0x60 \<and> c = CHR 0x60 \<and> fence_ahead cs)
      \<or> check_has_code (b # c # cs))"
| "check_has_code cs = False"

definition code_not_applicable :: validator_result where
  "code_not_applicable =
     \<lparr>j_score = Some 10, j_fields = [''feedback'' \<mapsto> JStr ''No code blocks to validate'']\<rparr>"

definition validate_code :: "environment \<Rightarrow> ArticleState \<Rightarrow> world \<Rightarrow> ArticleState \<times> world" where
  "validate_code env state0 w =
     (let found = check_has_code (content state0);
          state = state0\<lparr>has_code := found\<rparr>
      in if \<not> found
         then (state\<lparr>scores := dict_set (scores state) ''code'' 10,
                     feedback := (feedback state)(''code'' \<mapsto> code_not_applicable)\<rparr>, w)
         else validator_body ''code'' ''Code'' no_metadata env state w)"

section \<open>The nodes and the decision policy (agents/graph.py)\<close>

text \<open>
  \<open>generate_node\<close>. The tokens of the adapter's stream are joined only after the
  stream has ended, so a stream that raises leaves the content as it was.
\<close>

definition generate_node :: "environment \<Rightarrow> ArticleState \<Rightarrow> world \<Rightarrow> ArticleState \<times> world" where
  "generate_node env state0 w =
     (let state = state0\<lparr>current_node := ''generate''\<rparr> in
      case generate_article env (calls w) of
        Raises e \<Rightarrow> (state\<lparr>status := ''error'', error := Some e\<rparr>, w\<lparr>calls := calls w + 1\<rparr>)
      | Returns txt \<Rightarrow>
          (let s1 = state\<lparr>content := txt\<rparr>;
               s2 = (case title_match env (content s1) of None \<Rightarrow> s1
                     | Some t \<Rightarrow> s1\<lparr>title := t\<rparr>);
               d1 = create_version (db w) (article_id s2) (content s2) [] ''generate'';
               cid = article_id s2 @ ''_generate_'' @ take 8 (uuid4_hex env (uuids w));
               w1 = w\<lparr>calls := calls w + 1, uuids := uuids w + 1\<rparr>
           in case save_checkpoint d1 cid (article_id s2) ''generate'' s2 of
                Inl e \<Rightarrow> (s2\<lparr>status := ''error'', error := Some (str_db_error e)\<rparr>, w1\<lparr>db := d1\<rparr>)
              | Inr d2 \<Rightarrow> (s2, w1\<lparr>db := d2\<rparr>)))"

text \<open>
  \<open>regenerate_node\<close>. The feedback text and the list of failed nodes that the node
  builds go to the adapter only. \<open>failed_nodes\<close> is cleared after the adapter has
  answered; when the adapter raises, it is left as it is.
\<close>

definition regenerate_node :: "environment \<Rightarrow> ArticleState \<Rightarrow> world \<Rightarrow> ArticleState \<times> world" where
  "regenerate_node env state0 w =
     (let state = state0\<lparr>current_node := ''regenerate'', iteration := iteration state0 + 1\<rparr> in
      case regenerate_content env (calls w) of
        Raises e \<Rightarrow> (state\<lparr>status := ''error'', error := Some e\<rparr>, w\<lparr>calls := calls w + 1\<rparr>)
      | Returns txt \<Rightarrow>
          (let s1 = state\<lparr>content := txt\<rparr>;
               s2 = s1\<lparr>failed_nodes := []\<rparr>;
               d1 = create_version (db w) (article_id s2) (content s2) (scores s2) ''regenerate'';
               cid = article_id s2 @ ''_regenerate_'' @ take 8 (uuid4_hex env (uuids w));
               w1 = w\<lparr>calls := calls w + 1, uuids := uuids w + 1\<rparr>
           in case save_checkpoint d1 cid (article_id s2) ''regenerate'' s2 of
                Inl e \<Rightarrow> (s2\<lparr>status := ''error'', error := Some (str_db_error e)\<rparr>, w1\<lparr>db := d1\<rparr>)
              | Inr d2 \<Rightarrow> (s2, w1\<lparr>db := d2\<rparr>)))"

text \<open>\<open>sum(scores.values()) / len(scores) if scores else 0.0\<close>\<close>

definition mean_score :: "(string \<times> real) list \<Rightarrow> real" where
  "mean_score scs = (if scs \<noteq> [] then sum_list (map snd scs) / real (length scs) else 0)"

text \<open>
  \<open>finalize_node\<close>. Nothing inside its \<open>try\<close> raises here: the equation processing
  catches the failures of its own steps, and the article update is a write without a
  key.
\<close>

definition finalize_node :: "environment \<Rightarrow> ArticleState \<Rightarrow> world \<Rightarrow> ArticleState \<times> world" where
  "finalize_node env state0 w =
     (let state = state0\<lparr>current_node := ''finalize''\<rparr>;
          s1 = (if has_math state
                then state\<lparr>content := fst (process_article_equations env (content state)
                                               (article_id state))\<rparr>
                else state);
          score = mean_score (scores s1);
          s2 = s1\<lparr>overall_score := score\<rparr>;
          d1 = update_article (db w) (article_id s2) (Some (content s2)) (Some ''completed'')
                 (Some score)
      in (s2\<lparr>status := ''completed''\<rparr>, w\<lparr>db := d1\<rparr>))"

text \<open>
  \<open>min(d, key=d.get)\<close> on a non-empty dict: the items are gone through in order and
  the candidate is replaced only by an item whose value is strictly smaller.
\<close>

fun min_item :: "('k \<times> real) \<Rightarrow> ('k \<times> real) list \<Rightarrow> ('k \<times> real)" where
  "min_item best [] = best"
| "min_item best (p # ps) = min_item (if snd p < snd best then p else best) ps"

text \<open>
  \<open>should_regenerate\<close>: the routing decision, and the state as the function leaves it
  (it appends to \<open>failed_nodes\<close> in its last branch).
\<close>

definition should_regenerate :: "ArticleState \<Rightarrow> string \<times> ArticleState" where
  "should_regenerate state =
     (if failed_nodes state \<noteq> [] then
        (let max_retries_reached =
               list_ex (\<lambda>node. get_count (retry_counts state) node \<ge> MAX_RETRIES)
                 (failed_nodes state)
         in if max_retries_reached then (''finalize'', state) else (''regenerate'', state))
      else
        (let overall = mean_score (scores state) in
         if overall < PUBLISH_THRESHOLD then
           (case scores state of
              [] \<Rightarrow> (''finalize'', state)
            | p # ps \<Rightarrow>
                (let lowest = min_item p ps in
                 if snd lowest < MIN_SCORE_THRESHOLD
                 then (''regenerate'', state\<lparr>failed_nodes := failed_nodes state @ [fst lowest]\<rparr>)
                 else (''finalize'', state)))
         else (''finalize'', state)))"

section \<open>The graph and its runs (agents/graph.py)\<close>

text \<open>
  The nodes of the graph, with \<open>Decide\<close> for the conditional edge after
  \<open>validate_code\<close> and \<open>END\<close> for the end of the run.
\<close>

datatype node =
    Generate | Validate_structure | Validate_language | Validate_grammar | Validate_length
  | Validate_math | Validate_depth | Validate_readability | Validate_code
  | Decide | Regenerate | Finalize | END

text \<open>
  The function a node runs. \<open>Decide\<close> and \<open>END\<close> run none; their entries
  are there for totality and a step never uses them.
\<close>

fun node_function :: "node \<Rightarrow> environment \<Rightarrow> ArticleState \<Rightarrow> world \<Rightarrow> ArticleState \<times> world" where
  "node_function Generate = generate_node"
| "node_function Validate_structure = validate_structure"
| "node_function Validate_language = validate_language"
| "node_function Validate_grammar = validate_grammar"
| "node_function Validate_length = validate_length"
| "node_function Validate_math = validate_math"
| "node_function Validate_depth = validate_depth"
| "node_function Validate_readability = validate_readability"
| "node_function Validate_code = validate_code"
| "node_function Regenerate = regenerate_node"
| "node_function Finalize = finalize_node"
| "node_function Decide = (\<lambda>env state w. (state, w))"
| "node_function END = (\<lambda>env state w. (state, w))"

text \<open>
  The edges added by \<open>add_edge\<close>; none of them looks at the state. (\<open>Decide\<close>
  and \<open>END\<close> have no such edge; a step never uses their entries.)
\<close>

fun edge :: "node \<Rightarrow> node" where
  "edge Generate = Validate_structure"
| "edge Validate_structure = Validate_language"
| "edge Validate_language = Validate_grammar"
| "edge Validate_grammar = Validate_length"
| "edge Validate_length = Validate_math"
| "edge Validate_math = Validate_depth"
| "edge Validate_depth = Validate_readability"
| "edge Validate_readability = Validate_code"
| "edge Validate_code = Decide"
| "edge Regenerate = Validate_structure"
| "edge Finalize = END"
| "edge Decide = Decide"
| "edge END = END"

text \<open>The mapping of the conditional edge: the decision names the next node.\<close>

definition conditional_edge :: "string \<Rightarrow> node" where
  "conditional_edge decision = (if decision = ''regenerate'' then Regenerate else Finalize)"

text \<open>
  One step of a run: the node at hand runs on the state and the world, and the graph
  names the next node. At \<open>Decide\<close> the policy is evaluated, and the state goes on as
  the policy left it.
\<close>

type_synonym config = "node \<times> ArticleState \<times> world"

fun step :: "environment \<Rightarrow> config \<Rightarrow> config" where
  "step env (Decide, state, w) =
     (case should_regenerate state of (decision, state') \<Rightarrow> (conditional_edge decision, state', w))"
| "step env (END, state, w) = (END, state, w)"
| "step env (n, state, w) =
     (case node_function n env state w of (state', w') \<Rightarrow> (edge n, state', w'))"

text \<open>The configuration after \<open>k\<close> steps.\<close>

fun run :: "nat \<Rightarrow> environment \<Rightarrow> config \<Rightarrow> config" where
  "run 0 env c = c"
| "run (Suc k) env c = run k env (step env c)"

definition state_of :: "config \<Rightarrow> ArticleState" where
  "state_of c = fst (snd c)"

definition world_of :: "config \<Rightarrow> world" where
  "world_of c = snd (snd c)"

text \<open>
  What an observer of the first \<open>k\<close> steps records: for each step the node that ran
  and the names it appended to \<open>failed_nodes\<close>.
\<close>

record observation =
  obs_node :: node
  obs_appended :: "string list"

definition observe :: "config \<Rightarrow> config \<Rightarrow> observation" where
  "observe c c' =
     \<lparr>obs_node = fst c,
      obs_appended = drop (length (failed_nodes (state_of c))) (failed_nodes (state_of c'))\<rparr>"

fun observations :: "nat \<Rightarrow> environment \<Rightarrow> config \<Rightarrow> observation list" where
  "observations 0 env c = []"
| "observations (Suc k) env c = observe c (step env c) # observations k env (step env c)"

text \<open>The stage name that a validator node writes under.\<close>

fun stage_name :: "node \<Rightarrow> string option" where
  "stage_name Validate_structure = Some ''structure''"
| "stage_name Validate_language = Some ''language''"
| "stage_name Validate_grammar = Some ''grammar''"
| "stage_name Validate_length = Some ''length''"
| "stage_name Validate_math = Some ''math''"
| "stage_name Validate_depth = Some ''depth''"
| "stage_name Validate_readability = Some ''readability''"
| "stage_name Validate_code = Some ''code''"
| "stage_name n = None"

text \<open>
  How often \<open>v\<close> was appended to \<open>failed_nodes\<close> by the validator stages, and how
  often by the decision policy, in a list of observations.
\<close>

definition stage_appends :: "string \<Rightarrow> observation list \<Rightarrow> nat" where
  "stage_appends v os =
     sum_list (map (\<lambda>ob. if stage_name (obs_node ob) \<noteq> None
                          then count_list (obs_appended ob) v else 0) os)"

definition policy_appends :: "string \<Rightarrow> observation list \<Rightarrow> nat" where
  "policy_appends v os =
     sum_list (map (\<lambda>ob. if obs_node ob = Decide
                          then count_list (obs_appended ob) v else 0) os)"

section \<open>The start of a run (app/api/routes.py)\<close>

text \<open>
  The initial state that \<open>generate_article_endpoint\<close> builds for a session, an article id
  and the requirements (whose entries read here are strings), and the store with the
  article row that \<open>create_article\<close> has written.
\<close>

definition req_str :: "(string \<rightharpoonup> jval) \<Rightarrow> string \<Rightarrow> string \<Rightarrow> string" where
  "req_str req k dflt = (case req k of Some (JStr v) \<Rightarrow> v | _ \<Rightarrow> dflt)"

definition initial_state :: "string \<Rightarrow> string \<Rightarrow> (string \<rightharpoonup> jval) \<Rightarrow> nat \<Rightarrow> ArticleState" where
  "initial_state sid aid req now =
     \<lparr>session_id = sid, article_id = aid,
      topic = req_str req ''topic'' [], author = req_str req ''author'' [],
      target_audience = req_str req ''target_audience'' ''mixed'',
      article_type = req_str req ''article_type'' ''educational'',
      tone = req_str req ''tone'' ''conversational'',
      requirements = req, content = [], title = [], metadata = req,
      scores = [], overall_score = 0, feedback = Map.empty, retry_counts = Map.empty,
      needs_regeneration = False, failed_nodes = [], current_node = [], iteration = 0,
      has_code = False, has_math = False, status = ''processing'', error = None,
      started_at = now, updated_at = now\<rparr>"

definition empty_database :: database where
  "empty_database =
     \<lparr>articles = Map.empty, article_versions = [], validation_logs = [], checkpoints = []\<rparr>"

definition initial_world :: "string \<Rightarrow> string \<Rightarrow> (string \<rightharpoonup> jval) \<Rightarrow> world" where
  "initial_world sid aid req =
     \<lparr>db = (case create_article empty_database aid sid (req_str req ''topic'' ''Untitled'')
                  (req_str req ''author'' ''Anonymous'') req of
              Inl e \<Rightarrow> empty_database | Inr d \<Rightarrow> d),
      calls = 0, uuids = 0\<rparr>"

definition initial_config :: "string \<Rightarrow> string \<Rightarrow> (string \<rightharpoonup> jval) \<Rightarrow> nat \<Rightarrow> config" where
  "initial_config sid aid req now =
     (Generate, initial_state sid aid req now, initial_world sid aid req)"

section \<open>Sample runs\<close>

text \<open>
  A well-behaved outside world: the adapter answers every call, with the judgment
  \<open>verdict n\<close> for call number \<open>n\<close>; the drafts hold neither equations nor code; uuids
  differ in their first eight digits; every rendering succeeds and replacement strings
  are taken as they are.
\<close>

definition scored :: "real \<Rightarrow> validator_result reply" where
  "scored x = Returns \<lparr>j_score = Some x, j_fields = Map.empty\<rparr>"

definition sample_env :: "(nat \<Rightarrow> validator_result reply) \<Rightarrow> environment" where
  "sample_env verdict =
     \<lparr>generate_article = (\<lambda>n. Returns ''Draft''),
      regenerate_content = (\<lambda>n. Returns ''Redraft''),
      validate_content = verdict,
      uuid4_hex = (\<lambda>n. str_nat (10000000 + n)),
      title_match = (\<lambda>txt. None),
      latex_to_image = (\<lambda>equation filename display_mode. True),
      expand_template = Some\<rparr>"

definition sample_config :: config where
  "sample_config = initial_config ''session_1'' ''article_1'' Map.empty 0"


text \<open>
  The first adapter call of the structure stage raises; every other call is answered
  with 9.
\<close>

definition failing_env :: environment where
  "failing_env = sample_env (\<lambda>n. if n = 1 then Raises ''timeout'' else scored 9)"

text \<open>
  The grammar stage is judged 6 in the first pass (call 3) and its call raises in the
  second pass (call 10); every other call is answered with 8.
\<close>

definition stale_env :: environment where
  "stale_env =
     sample_env (\<lambda>n. if n = 3 then scored 6 else if n = 10 then Raises ''timeout''
                      else scored 8)"

text \<open>An adapter that raises on every call.\<close>

definition silent_env :: environment where
  "silent_env =
     (sample_env (\<lambda>n. Raises ''timeout''))
       \<lparr>generate_article := (\<lambda>n. Raises ''timeout''),
        regenerate_content := (\<lambda>n. Raises ''timeout'')\<rparr>"


section \<open>The decision policy in the words of the specification\<close>


text \<open>A state at the end of a pass in which every one of the eight stages scored 8.\<close>

definition all_eight :: ArticleState where
  "all_eight =
     (initial_state ''session_1'' ''article_1'' Map.empty 0)
       \<lparr>scores := [(''structure'', 8), (''language'', 8), (''grammar'', 8), (''length'', 8),
                   (''math'', 8), (''depth'', 8), (''readability'', 8), (''code'', 8)]\<rparr>"

text \<open>
  A state in which no stage is marked as failed, the grammar score is 6 and the grammar
  stage has already used up its five retries.
\<close>

definition blamed_state :: ArticleState where
  "blamed_state =
     (initial_state ''session_1'' ''article_1'' Map.empty 0)
       \<lparr>scores := [(''structure'', 8), (''language'', 8), (''grammar'', 6), (''length'', 8),
                   (''math'', 10), (''depth'', 8), (''readability'', 8), (''code'', 10)],
        retry_counts := [''grammar'' \<mapsto> 5]\<rparr>"

text \<open>
  A state whose draft has lost its equations in a regeneration: the flag \<open>has_math\<close>
  is still set from the pass before.
\<close>

definition had_math :: ArticleState where
  "had_math =
     (initial_state ''session_1'' ''article_1'' Map.empty 0)
       \<lparr>has_math := True, content := ''No equations here.''\<rparr>"

section \<open>What a step does, seen from outside\<close>

text \<open>
  The judgment that the adapter gives at the call at hand is below the stage threshold
  (a missing score counts as 0; a call that raises gives no judgment).
\<close>

definition judged_low :: "environment \<Rightarrow> world \<Rightarrow> bool" where
  "judged_low env w =
     (case validate_content env (calls w) of
        Raises e \<Rightarrow> False
      | Returns result \<Rightarrow>
          (case j_score result of None \<Rightarrow> 0 | Some x \<Rightarrow> x) < MIN_SCORE_THRESHOLD)"

text \<open>
  The node calls the Generator Adapter on this state: the generate and regenerate nodes
  and the six ungated stages always do, the math and the code stage when the content
  has something for them.
\<close>

definition calls_adapter :: "node \<Rightarrow> ArticleState \<Rightarrow> bool" where
  "calls_adapter n s =
     (n = Generate \<or> n = Regenerate
      \<or> (stage_name n \<noteq> None
          \<and> (n = Validate_math \<longrightarrow> check_has_math (content s))
          \<and> (n = Validate_code \<longrightarrow> check_has_code (content s))))"

definition stage_failed :: "node \<Rightarrow> environment \<Rightarrow> ArticleState \<Rightarrow> world \<Rightarrow> bool" where
  "stage_failed n env s w = (stage_name n \<noteq> None \<and> calls_adapter n s \<and> judged_low env w)"

text \<open>The row that \<open>create_version\<close> appends.\<close>

definition new_version ::
  "database \<Rightarrow> string \<Rightarrow> string \<Rightarrow> (string \<times> real) list \<Rightarrow> string \<Rightarrow> ArticleVersion" where
  "new_version d aid txt scs node_name =
     \<lparr>version_article_id = aid, version_number = int (length (versions_of d aid)) + 1,
      version_content = txt, version_scores = scs, version_node_name = node_name\<rparr>"

text \<open>
  The step at hand is a generate or regenerate transition whose adapter call returns
  a draft; \<open>drafts k\<close> counts such steps among the first \<open>k\<close> of a run.
\<close>

definition drafted :: "environment \<Rightarrow> config \<Rightarrow> bool" where
  "drafted env c =
     (case c of (n, state, w) \<Rightarrow>
        (n = Generate
         \<and> (case generate_article env (calls w) of Returns t \<Rightarrow> True | Raises e \<Rightarrow> False))
        \<or> (n = Regenerate
            \<and> (case regenerate_content env (calls w) of Returns t \<Rightarrow> True | Raises e \<Rightarrow> False)))"

fun drafts :: "nat \<Rightarrow> environment \<Rightarrow> config \<Rightarrow> nat" where
  "drafts 0 env c = 0"
| "drafts (Suc k) env c = (if drafted env c then 1 else 0) + drafts k env (step env c)"

text \<open>The versions that the step at hand appends to the store.\<close>

definition step_versions :: "environment \<Rightarrow> config \<Rightarrow> ArticleVersion list" where
  "step_versions env c =
     (case c of (n, state, w) \<Rightarrow>
        if n = Generate then
          (case generate_article env (calls w) of
             Raises e \<Rightarrow> []
           | Returns txt \<Rightarrow> [new_version (db w) (article_id state) txt [] ''generate''])
        else if n = Regenerate then
          (case regenerate_content env (calls w) of
             Raises e \<Rightarrow> []
           | Returns txt \<Rightarrow>
               [new_version (db w) (article_id state) txt (scores state) ''regenerate''])
        else [])"

section \<open>Properties of the queue\<close>

lemma update_queue_status_positions:
  "map queue_position (update_queue_status now q sid st) = map queue_position q"
  by (induction q) (auto simp: Let_def)

lemma update_queue_status_sessions:
  "map queue_session_id (update_queue_status now q sid st) = map queue_session_id q"
  by (induction q) (auto simp: Let_def)

text \<open>
  Claim C10. \<open>add_to_queue\<close> gives a new session the position (number of rows in
  status \<open>queued\<close>) + 1 and appends its row; \<open>update_queue_status\<close> leaves every
  position (and every session id) as it was, so it renumbers nothing. Hence positions
  are not unique: after \<open>a\<close> and \<open>b\<close> are enqueued at 1 and 2 and \<open>a\<close> moves to
  \<open>processing\<close>, session \<open>c\<close> is enqueued at 2, the position the queued \<open>b\<close>
  still holds.
\<close>

theorem add_to_queue_positions_not_unique:
  "(sid \<notin> set (map queue_session_id q) \<longrightarrow>
      add_to_queue now q sid =
        Inr (q @ [\<lparr>queue_session_id = sid,
                     queue_position = count_status ''queued'' q + 1,
                     queue_status = ''queued'', queue_created_at = now,
                     queue_started_at = None, queue_completed_at = None\<rparr>],
             count_status ''queued'' q + 1))
   \<and> map queue_position (update_queue_status now' q sid' st) = map queue_position q
   \<and> map queue_session_id (update_queue_status now' q sid' st) = map queue_session_id q
   \<and> (\<exists>q4. queue_scenario = Inr (q4, 1, 2, 2)
         \<and> map queue_session_id q4 = [''a'', ''b'', ''c'']
         \<and> map queue_status q4 = [''processing'', ''queued'', ''queued'']
         \<and> get_queue_position q4 ''b'' = Some 2
         \<and> get_queue_position q4 ''c'' = Some 2)"
proof (intro conjI)
  show "sid \<notin> set (map queue_session_id q) \<longrightarrow>
      add_to_queue now q sid =
        Inr (q @ [\<lparr>queue_session_id = sid,
                     queue_position = count_status ''queued'' q + 1,
                     queue_status = ''queued'', queue_created_at = now,
                     queue_started_at = None, queue_completed_at = None\<rparr>],
             count_status ''queued'' q + 1)"
    by (simp add: add_to_queue_def Let_def)
  show "map queue_position (update_queue_status now' q sid' st) = map queue_position q"
    by (rule update_queue_status_positions)
  show "map queue_session_id (update_queue_status now' q sid' st) = map queue_session_id q"
    by (rule update_queue_status_sessions)
  show "\<exists>q4. queue_scenario = Inr (q4, 1, 2, 2)
         \<and> map queue_session_id q4 = [''a'', ''b'', ''c'']
         \<and> map queue_status q4 = [''processing'', ''queued'', ''queued'']
         \<and> get_queue_position q4 ''b'' = Some 2
         \<and> get_queue_position q4 ''c'' = Some 2"
    by (simp add: queue_scenario_def add_to_queue_def count_status_def Let_def)
qed

theorem add_to_queue_positions_not_unique_witness:
  "''a'' \<notin> set (map queue_session_id [])
   \<and> add_to_queue 0 [] ''a'' =
        Inr ([\<lparr>queue_session_id = ''a'', queue_position = 1,
                queue_status = ''queued'', queue_created_at = 0,
                queue_started_at = None, queue_completed_at = None\<rparr>], 1)"
  using add_to_queue_positions_not_unique [of "''a''" "[]" 0]
  by (simp add: count_status_def)

section \<open>Properties of time travel\<close>

lemma dict_get_set: "dict_get (dict_set d k v) k' = (if k' = k then Some v else dict_get d k')"
  by (induction d) (auto simp: dict_get_def)

lemma keys_dict_set: "dict_has d k \<Longrightarrow> map fst (dict_set d k v) = map fst d"
  by (induction d) (auto simp: dict_has_def)

lemma dict_has_get: "dict_has d k = (dict_get d k \<noteq> None)"
  by (induction d) (auto simp: dict_has_def dict_get_def)

lemma keys_apply_modifications: "map fst (apply_modifications state ms) = map fst state"
  by (induction state ms rule: apply_modifications.induct) (auto simp: keys_dict_set)

text \<open>
  What a key holds after the loop: a key of the checkpoint state holds the value of the
  override of that name (the last one, should the list name it twice), or its old value
  when no override names it; a key absent from the checkpoint state stays absent.
\<close>

lemma dict_get_apply_modifications:
  "dict_get (apply_modifications state ms) k =
     (if dict_has state k
      then (case map_of (rev ms) k of Some v \<Rightarrow> Some v | None \<Rightarrow> dict_get state k)
      else None)"
proof (induction state ms rule: apply_modifications.induct)
  case (1 state)
  then show ?case by (auto simp: dict_has_get)
next
  case (2 state key val ms)
  show ?case
  proof (cases "dict_has state key")
    case True
    then have h: "dict_has (dict_set state key val) k = dict_has state k"
      by (simp add: dict_has_def keys_dict_set)
    show ?thesis using 2 True h
      by (auto simp: dict_get_set map_add_def split: option.splits)
  next
    case False
    then show ?thesis using 2
      by (auto simp: map_add_def dict_has_get split: option.splits)
  qed
qed

text \<open>
  Claim C9. In the state that time travel hands to the new run, \<open>article_id\<close> is the
  new identifier; every other key that the checkpoint state has holds the override of
  that name if there is one and its checkpoint value otherwise; a key that the
  checkpoint state lacks is still absent, whatever the overrides say.
\<close>

theorem time_travel_overrides:
  assumes "time_travel (Some state) modifications new_article_id = Inr state'"
  shows "dict_get state' ''article_id'' = Some new_article_id
     \<and> (\<forall>k. k \<noteq> ''article_id'' \<longrightarrow>
           dict_get state' k =
             (if dict_has state k
              then (case map_of (rev modifications) k of
                      Some v \<Rightarrow> Some v | None \<Rightarrow> dict_get state k)
              else None))"
  using assms
  by (auto simp: time_travel_def dict_get_set dict_get_apply_modifications)

theorem time_travel_overrides_witness:
  "time_travel (Some [(''article_id'', ''article_old''), (''topic'', ''History'')])
       [(''topic'', ''Updated Topic''), (''colour'', ''red'')] ''article_new''
     = Inr [(''article_id'', ''article_new''), (''topic'', ''Updated Topic'')]
   \<and> dict_get [(''article_id'', ''article_new''), (''topic'', ''Updated Topic'')] ''article_id''
       = Some ''article_new''
   \<and> dict_get [(''article_id'', ''article_new''), (''topic'', ''Updated Topic'')] ''colour''
       = None"
proof -
  have run: "time_travel (Some [(''article_id'', ''article_old''), (''topic'', ''History'')])
       [(''topic'', ''Updated Topic''), (''colour'', ''red'')] ''article_new''
     = Inr [(''article_id'', ''article_new''), (''topic'', ''Updated Topic'')]"
    by (simp add: time_travel_def dict_has_def)
  from time_travel_overrides [OF run] run show ?thesis
    by (simp add: dict_has_def)
qed

section \<open>Properties of the decision policy\<close>







text \<open>The three branches of the policy.\<close>

lemma should_regenerate_failed:
  "failed_nodes s \<noteq> [] \<Longrightarrow>
   should_regenerate s =
     (if list_ex (\<lambda>node. get_count (retry_counts s) node \<ge> MAX_RETRIES) (failed_nodes s)
      then ''finalize'' else ''regenerate'', s)"
  by (simp add: should_regenerate_def)

lemma should_regenerate_no_scores:
  "failed_nodes s = [] \<Longrightarrow> scores s = [] \<Longrightarrow> should_regenerate s = (''finalize'', s)"
  by (simp add: should_regenerate_def)

lemma should_regenerate_scores:
  "failed_nodes s = [] \<Longrightarrow> scores s = p # ps \<Longrightarrow>
   should_regenerate s =
     (if mean_score (p # ps) < PUBLISH_THRESHOLD \<and> snd (min_item p ps) < MIN_SCORE_THRESHOLD
      then (''regenerate'', s\<lparr>failed_nodes := [fst (min_item p ps)]\<rparr>)
      else (''finalize'', s))"
  by (simp add: should_regenerate_def Let_def)



lemma should_regenerate_frame:
  "scores (snd (should_regenerate s)) = scores s \<and>
   retry_counts (snd (should_regenerate s)) = retry_counts s"
proof (cases "failed_nodes s = []")
  case False
  then show ?thesis by (simp add: should_regenerate_failed)
next
  case True
  show ?thesis
  proof (cases "scores s")
    case Nil
    then show ?thesis using True by (simp add: should_regenerate_no_scores)
  next
    case (Cons p ps)
    then show ?thesis using True by (simp add: should_regenerate_scores)
  qed
qed

lemma should_regenerate_inputs:
  assumes "scores s = scores t" "failed_nodes s = failed_nodes t" "retry_counts s = retry_counts t"
  shows "fst (should_regenerate s) = fst (should_regenerate t)"
proof (cases "failed_nodes s = []")
  case False
  then have "failed_nodes t \<noteq> []" using assms by simp
  then show ?thesis using False assms by (simp add: should_regenerate_failed)
next
  case True
  then have t: "failed_nodes t = []" using assms by simp
  show ?thesis
  proof (cases "scores s")
    case Nil
    then have "scores t = []" using assms by simp
    then show ?thesis using Nil True t by (simp add: should_regenerate_no_scores)
  next
    case (Cons p ps)
    then have "scores t = p # ps" using assms by simp
    then show ?thesis using Cons True t by (simp add: should_regenerate_scores)
  qed
qed

lemma should_regenerate_twice:
  "(fst (should_regenerate (snd (should_regenerate s))) = fst (should_regenerate s))
   = (\<not> (failed_nodes s = [] \<and> fst (should_regenerate s) = ''regenerate''
          \<and> (\<exists>v. failed_nodes (snd (should_regenerate s)) = [v]
                   \<and> get_count (retry_counts s) v \<ge> MAX_RETRIES)))"
proof (cases "failed_nodes s = []")
  case False
  then have "snd (should_regenerate s) = s" by (simp add: should_regenerate_failed)
  then show ?thesis using False by simp
next
  case True
  show ?thesis
  proof (cases "scores s")
    case Nil
    then have "should_regenerate s = (''finalize'', s)"
      using True by (simp add: should_regenerate_no_scores)
    then show ?thesis by simp
  next
    case (Cons p ps)
    show ?thesis
    proof (cases "mean_score (p # ps) < PUBLISH_THRESHOLD
                  \<and> snd (min_item p ps) < MIN_SCORE_THRESHOLD")
      case False
      then have "should_regenerate s = (''finalize'', s)"
        using True Cons should_regenerate_scores [of s p ps] by simp
      then show ?thesis by simp
    next
      case c: True
      define t where "t = s\<lparr>failed_nodes := [fst (min_item p ps)]\<rparr>"
      have first: "should_regenerate s = (''regenerate'', t)"
        using True Cons c should_regenerate_scores [of s p ps] by (simp add: t_def)
      have ft: "failed_nodes t = [fst (min_item p ps)]"
        and rt: "retry_counts t = retry_counts s"
        by (simp_all add: t_def)
      have "failed_nodes t \<noteq> []" using ft by simp
      then have second: "fst (should_regenerate t) =
          (if get_count (retry_counts s) (fst (min_item p ps)) \<ge> MAX_RETRIES
           then ''finalize'' else ''regenerate'')"
        using ft rt by (simp add: should_regenerate_failed)
      show ?thesis using first second True ft by simp
    qed
  qed
qed

text \<open>
  Claim C6, as stated, fails: the policy appends to \<open>failed_nodes\<close>, one of the inputs
  of its own decision. On \<open>blamed_state\<close> the first evaluation says \<open>regenerate\<close> and
  appends the grammar stage, whose retries are used up, so the second evaluation, on
  the state the first one left, says \<open>finalize\<close>.
\<close>

theorem should_regenerate_not_idempotent:
  "fst (should_regenerate blamed_state) = ''regenerate''
   \<and> fst (should_regenerate (snd (should_regenerate blamed_state))) = ''finalize''
   \<and> failed_nodes blamed_state = []
   \<and> failed_nodes (snd (should_regenerate blamed_state)) = [''grammar'']"
  by (simp add: blamed_state_def initial_state_def should_regenerate_def mean_score_def
      PUBLISH_THRESHOLD_def MIN_SCORE_THRESHOLD_def MAX_RETRIES_def get_count_def Let_def)

text \<open>
  Claim C6, amended. The decision is a function of \<open>scores\<close>, \<open>failed_nodes\<close> and
  \<open>retry_counts\<close> alone: two states that agree on the three get the same decision.
  An evaluation leaves \<open>scores\<close> and \<open>retry_counts\<close> as they are, but may append to
  \<open>failed_nodes\<close>; a second evaluation on the state the first one left agrees with the
  first, except when the first one appended a stage whose retry counter has reached
  \<open>MAX_RETRIES\<close>.
\<close>

theorem should_regenerate_deterministic:
  "(scores s = scores t \<and> failed_nodes s = failed_nodes t \<and> retry_counts s = retry_counts t
      \<longrightarrow> fst (should_regenerate s) = fst (should_regenerate t))
   \<and> scores (snd (should_regenerate s)) = scores s
   \<and> retry_counts (snd (should_regenerate s)) = retry_counts s
   \<and> ((fst (should_regenerate (snd (should_regenerate s))) = fst (should_regenerate s))
        = (\<not> (failed_nodes s = [] \<and> fst (should_regenerate s) = ''regenerate''
               \<and> (\<exists>v. failed_nodes (snd (should_regenerate s)) = [v]
                        \<and> get_count (retry_counts s) v \<ge> MAX_RETRIES))))"
  using should_regenerate_inputs [of s t] should_regenerate_frame [of s]
    should_regenerate_twice [of s]
  by blast

theorem should_regenerate_deterministic_witness:
  "scores all_eight = scores (all_eight\<lparr>status := ''error''\<rparr>)
   \<and> failed_nodes all_eight = failed_nodes (all_eight\<lparr>status := ''error''\<rparr>)
   \<and> retry_counts all_eight = retry_counts (all_eight\<lparr>status := ''error''\<rparr>)
   \<and> fst (should_regenerate all_eight) = fst (should_regenerate (all_eight\<lparr>status := ''error''\<rparr>))"
  using should_regenerate_deterministic [of all_eight "all_eight\<lparr>status := ''error''\<rparr>"]
  by simp

section \<open>Properties of the math stage\<close>

lemma validate_math_skipped:
  "\<not> check_has_math (content state) \<Longrightarrow>
   validate_math env state w =
     (state\<lparr>has_math := False, scores := dict_set (scores state) ''math'' 10,
            feedback := (feedback state)(''math'' \<mapsto> math_not_applicable)\<rparr>, w)"
  by (simp add: validate_math_def Let_def)

text \<open>
  Claim C5, as stated, fails: the stage also writes the flag \<open>has_math\<close>. On a state
  whose flag is set and whose content has no \<open>$\<dots>$\<close> span the result differs from
  the state with only the score and the feedback of the math stage written.
\<close>

theorem validate_math_writes_flag:
  "\<not> check_has_math (content had_math)
   \<and> has_math had_math
   \<and> \<not> has_math (fst (validate_math silent_env had_math
                         (initial_world ''session_1'' ''article_1'' Map.empty)))
   \<and> fst (validate_math silent_env had_math (initial_world ''session_1'' ''article_1'' Map.empty))
       \<noteq> had_math\<lparr>scores := dict_set (scores had_math) ''math'' 10,
                   feedback := (feedback had_math)(''math'' \<mapsto> math_not_applicable)\<rparr>"
proof -
  let ?w = "initial_world ''session_1'' ''article_1'' Map.empty"
  have c: "\<not> check_has_math (content had_math)"
    by (simp add: had_math_def initial_state_def)
  have a: "has_math (fst (validate_math silent_env had_math ?w)) = False"
    using validate_math_skipped [OF c] by simp
  have b: "has_math (had_math\<lparr>scores := dict_set (scores had_math) ''math'' 10,
            feedback := (feedback had_math)(''math'' \<mapsto> math_not_applicable)\<rparr>) = True"
    by (simp add: had_math_def)
  have d: "has_math had_math" by (simp add: had_math_def)
  have "fst (validate_math silent_env had_math ?w)
       \<noteq> had_math\<lparr>scores := dict_set (scores had_math) ''math'' 10,
                   feedback := (feedback had_math)(''math'' \<mapsto> math_not_applicable)\<rparr>"
    using a b by metis
  then show ?thesis using a c d by simp
qed

text \<open>
  Claim C5, amended. For a content without a \<open>$\<dots>$\<close> span the math stage writes the
  score 10 and the fixed feedback under \<open>math\<close>, sets the flag \<open>has_math\<close> to false
  and changes nothing else of the state: \<open>failed_nodes\<close> and \<open>retry_counts\<close> are
  untouched. The result does not depend on the adapter, and the world comes back as it
  was: no adapter call is made.
\<close>

theorem validate_math_not_applicable:
  assumes "\<not> check_has_math (content state)"
  shows "validate_math env state w =
           (state\<lparr>has_math := False, scores := dict_set (scores state) ''math'' 10,
                  feedback := (feedback state)(''math'' \<mapsto> math_not_applicable)\<rparr>, w)
     \<and> dict_get (scores (fst (validate_math env state w))) ''math'' = Some 10
     \<and> feedback (fst (validate_math env state w)) ''math'' = Some math_not_applicable
     \<and> failed_nodes (fst (validate_math env state w)) = failed_nodes state
     \<and> retry_counts (fst (validate_math env state w)) = retry_counts state
     \<and> calls (snd (validate_math env state w)) = calls w"
  using validate_math_skipped [OF assms, of env w] by (simp add: dict_get_set)

theorem validate_math_not_applicable_witness:
  "\<not> check_has_math (content had_math)
   \<and> dict_get (scores (fst (validate_math silent_env had_math
         (initial_world ''session_1'' ''article_1'' Map.empty)))) ''math'' = Some 10
   \<and> calls (snd (validate_math silent_env had_math
         (initial_world ''session_1'' ''article_1'' Map.empty))) = 0"
proof -
  have c: "\<not> check_has_math (content had_math)"
    by (simp add: had_math_def initial_state_def)
  have z: "calls (initial_world ''session_1'' ''article_1'' Map.empty) = 0"
    by (simp add: initial_world_def)
  from validate_math_not_applicable [OF c, of silent_env
      "initial_world ''session_1'' ''article_1'' Map.empty"]
  have a: "dict_get (scores (fst (validate_math silent_env had_math
         (initial_world ''session_1'' ''article_1'' Map.empty)))) ''math'' = Some 10"
    and b: "calls (snd (validate_math silent_env had_math
         (initial_world ''session_1'' ''article_1'' Map.empty)))
       = calls (initial_world ''session_1'' ''article_1'' Map.empty)"
    by blast+
  show ?thesis using a b c z by simp
qed

section \<open>Properties of the nodes\<close>

lemma validator_body_raises:
  "validate_content env (calls w) = Raises e \<Longrightarrow>
   validator_body name label store env s w =
     (s\<lparr>status := ''error'', error := Some e\<rparr>, w\<lparr>calls := calls w + 1\<rparr>)"
  by (simp add: validator_body_def)

lemma validator_body_failed_nodes:
  "failed_nodes (fst (validator_body name label store env s w)) =
     failed_nodes s @ (if judged_low env w then [name] else [])"
  by (simp add: validator_body_def judged_low_def Let_def split: reply.splits)

lemma validator_body_retry_counts:
  "retry_counts (fst (validator_body name label store env s w)) =
     (if judged_low env w then (retry_counts s)(name \<mapsto> get_count (retry_counts s) name + 1)
      else retry_counts s)"
  by (simp add: validator_body_def judged_low_def Let_def split: reply.splits)

lemma validator_body_calls: "calls (snd (validator_body name label store env s w)) = calls w + 1"
  by (simp add: validator_body_def Let_def split: reply.splits)

lemma validator_body_versions:
  "article_versions (db (snd (validator_body name label store env s w))) = article_versions (db w)"
  by (simp add: validator_body_def add_validation_log_def Let_def split: reply.splits)


lemma validator_body_article_id:
  "article_id (fst (validator_body name label store env s w)) = article_id s"
  by (simp add: validator_body_def Let_def split: reply.splits)

lemmas validator_defs = validate_structure_def validate_language_def validate_grammar_def
  validate_length_def validate_depth_def validate_readability_def validate_math_def
  validate_code_def

lemma stage_failed_nodes:
  "stage_name n = Some v \<Longrightarrow>
   failed_nodes (fst (node_function n env s w)) =
     failed_nodes s @ (if stage_failed n env s w then [v] else [])"
  by (cases n)
    (simp_all add: validator_defs stage_failed_def calls_adapter_def
      validator_body_failed_nodes Let_def)

lemma stage_retry_counts:
  "stage_name n = Some v \<Longrightarrow>
   retry_counts (fst (node_function n env s w)) =
     (if stage_failed n env s w then (retry_counts s)(v \<mapsto> get_count (retry_counts s) v + 1)
      else retry_counts s)"
  by (cases n)
    (simp_all add: validator_defs stage_failed_def calls_adapter_def
      validator_body_retry_counts Let_def)

lemma stage_versions:
  "stage_name n = Some v \<Longrightarrow>
   article_versions (db (snd (node_function n env s w))) = article_versions (db w)"
  by (cases n) (simp_all add: validator_defs validator_body_versions Let_def)


lemma stage_article_id:
  "stage_name n = Some v \<Longrightarrow> article_id (fst (node_function n env s w)) = article_id s"
  by (cases n) (simp_all add: validator_defs validator_body_article_id Let_def)

lemma stage_raises:
  "stage_name n = Some v \<Longrightarrow> calls_adapter n s \<Longrightarrow>
   validate_content env (calls w) = Raises e \<Longrightarrow>
   status (fst (node_function n env s w)) = ''error''
   \<and> error (fst (node_function n env s w)) = Some e"
  by (cases n) (simp_all add: validator_defs calls_adapter_def validator_body_raises Let_def)

lemma create_version_versions:
  "article_versions (create_version d aid txt scs nm) =
     article_versions d @ [new_version d aid txt scs nm]"
  by (simp add: create_version_def new_version_def Let_def)


lemma save_checkpoint_keeps:
  "save_checkpoint d cid aid nm st = Inr d' \<Longrightarrow>
   article_versions d' = article_versions d \<and> articles d' = articles d"
  by (auto simp add: save_checkpoint_def split: if_splits)

lemma generate_versions:
  "article_versions (db (snd (generate_node env s w))) =
     article_versions (db w) @
       (case generate_article env (calls w) of
          Raises e \<Rightarrow> []
        | Returns txt \<Rightarrow> [new_version (db w) (article_id s) txt [] ''generate''])"
  by (auto simp add: generate_node_def create_version_versions Let_def
      split: reply.splits sum.splits option.splits dest: save_checkpoint_keeps)

lemma regenerate_versions:
  "article_versions (db (snd (regenerate_node env s w))) =
     article_versions (db w) @
       (case regenerate_content env (calls w) of
          Raises e \<Rightarrow> []
        | Returns txt \<Rightarrow> [new_version (db w) (article_id s) txt (scores s) ''regenerate''])"
  by (auto simp add: regenerate_node_def create_version_versions Let_def
      split: reply.splits sum.splits dest: save_checkpoint_keeps)



lemma generate_frame:
  "article_id (fst (generate_node env s w)) = article_id s
   \<and> retry_counts (fst (generate_node env s w)) = retry_counts s
   \<and> failed_nodes (fst (generate_node env s w)) = failed_nodes s
   \<and> calls (snd (generate_node env s w)) = calls w + 1"
  by (simp add: generate_node_def Let_def split: reply.splits sum.splits option.splits)

lemma regenerate_frame:
  "article_id (fst (regenerate_node env s w)) = article_id s
   \<and> retry_counts (fst (regenerate_node env s w)) = retry_counts s
   \<and> calls (snd (regenerate_node env s w)) = calls w + 1"
  by (simp add: regenerate_node_def Let_def split: reply.splits sum.splits)

lemma regenerate_failed_nodes:
  "length (failed_nodes (fst (regenerate_node env s w))) \<le> length (failed_nodes s)"
  by (simp add: regenerate_node_def Let_def split: reply.splits sum.splits)

lemma finalize_frame:
  "article_id (fst (finalize_node env s w)) = article_id s
   \<and> retry_counts (fst (finalize_node env s w)) = retry_counts s
   \<and> failed_nodes (fst (finalize_node env s w)) = failed_nodes s
   \<and> article_versions (db (snd (finalize_node env s w))) = article_versions (db w)
   \<and> calls (snd (finalize_node env s w)) = calls w"
  by (simp add: finalize_node_def update_article_def Let_def split: option.splits)




section \<open>Properties of the steps\<close>

lemma step_node:
  "n \<noteq> Decide \<Longrightarrow> n \<noteq> END \<Longrightarrow>
   step env (n, s, w) = (edge n, fst (node_function n env s w), snd (node_function n env s w))"
  by (cases n) (simp_all split: prod.splits)

lemma step_Decide:
  "step env (Decide, s, w) =
     (conditional_edge (fst (should_regenerate s)), snd (should_regenerate s), w)"
  by (simp split: prod.splits)

lemma stage_name_cases:
  "stage_name n = None \<Longrightarrow>
   n = Generate \<or> n = Decide \<or> n = Regenerate \<or> n = Finalize \<or> n = END"
  by (cases n) simp_all

lemma obs_node_observe: "obs_node (observe c c') = fst c"
  by (simp add: observe_def)

lemma obs_appended_observe:
  "obs_appended (observe c c') =
     drop (length (failed_nodes (state_of c))) (failed_nodes (state_of c'))"
  by (simp add: observe_def)

lemma step_article_id: "article_id (state_of (step env c)) = article_id (state_of c)"
proof -
  obtain n s w where c: "c = (n, s, w)" by (cases c) auto
  show ?thesis
  proof (cases "stage_name n")
    case (Some v)
    then have "n \<noteq> Decide" "n \<noteq> END" by auto
    then show ?thesis using Some c by (simp add: step_node state_of_def stage_article_id)
  next
    case None
    from stage_name_cases [OF None] show ?thesis
    proof (elim disjE)
      assume "n = Decide"
      then show ?thesis using c
        by (cases "failed_nodes s = []"; cases "scores s")
          (simp_all add: step_Decide state_of_def should_regenerate_failed
            should_regenerate_no_scores should_regenerate_scores del: step.simps)
    qed (simp_all add: c state_of_def generate_frame regenerate_frame finalize_frame
          split: prod.splits)
  qed
qed

text \<open>
  One step changes the retry counter of \<open>v\<close> by the number of times a validator
  stage appended \<open>v\<close> to \<open>failed_nodes\<close> in it; no other node touches the counters.
\<close>

lemma step_retry:
  "get_count (retry_counts (state_of (step env c))) v =
     get_count (retry_counts (state_of c)) v
     + int (if stage_name (fst c) \<noteq> None
            then count_list (obs_appended (observe c (step env c))) v else 0)"
proof -
  obtain n s w where c: "c = (n, s, w)" by (cases c) auto
  show ?thesis
  proof (cases "stage_name n")
    case (Some u)
    then have "n \<noteq> Decide" "n \<noteq> END" by auto
    then have st: "step env (n, s, w) =
        (edge n, fst (node_function n env s w), snd (node_function n env s w))"
      by (simp add: step_node)
    show ?thesis using Some
      by (simp add: st c obs_appended_observe state_of_def stage_failed_nodes
          stage_retry_counts get_count_def)
  next
    case None
    from stage_name_cases [OF None]
    have "retry_counts (state_of (step env c)) = retry_counts (state_of c)"
    proof (elim disjE)
      assume "n = Decide"
      then show ?thesis using c should_regenerate_frame [of s]
        by (simp add: step_Decide state_of_def del: step.simps)
    qed (simp_all add: c state_of_def generate_frame regenerate_frame finalize_frame
          split: prod.splits)
    then show ?thesis using None c by simp
  qed
qed

lemma step_article_versions:
  "article_versions (db (world_of (step env c))) =
     article_versions (db (world_of c)) @ step_versions env c"
proof -
  obtain n s w where c: "c = (n, s, w)" by (cases c) auto
  show ?thesis
  proof (cases "stage_name n")
    case (Some v)
    then have "n \<noteq> Decide" "n \<noteq> END" "n \<noteq> Generate" "n \<noteq> Regenerate" by auto
    then show ?thesis using Some c
      by (simp add: step_node world_of_def step_versions_def stage_versions)
  next
    case None
    from stage_name_cases [OF None] show ?thesis
    proof (elim disjE)
      assume "n = Decide"
      then show ?thesis using c
        by (simp add: step_Decide world_of_def step_versions_def del: step.simps)
    next
      assume "n = Generate"
      then show ?thesis using c generate_versions [of env s w]
        by (simp add: world_of_def step_versions_def split: prod.splits)
    next
      assume "n = Regenerate"
      then show ?thesis using c regenerate_versions [of env s w]
        by (simp add: world_of_def step_versions_def split: prod.splits)
    next
      assume "n = Finalize"
      then show ?thesis using c finalize_frame [of env s w]
        by (simp add: world_of_def step_versions_def split: prod.splits)
    next
      assume "n = END"
      then show ?thesis using c by (simp add: world_of_def step_versions_def)
    qed
  qed
qed

lemma step_versions_drafted:
  "step_versions env c = (if drafted env c then [hd (step_versions env c)] else [])
   \<and> (drafted env c \<longrightarrow>
        version_article_id (hd (step_versions env c)) = article_id (state_of c)
        \<and> version_number (hd (step_versions env c))
            = int (length (versions_of (db (world_of c)) (article_id (state_of c)))) + 1)"
  by (cases c)
    (auto simp add: step_versions_def drafted_def new_version_def state_of_def world_of_def
      split: reply.splits)

lemma versions_of_step:
  "versions_of (db (world_of (step env c))) aid =
     versions_of (db (world_of c)) aid
     @ (if drafted env c \<and> aid = article_id (state_of c)
        then [hd (step_versions env c)] else [])"
proof -
  have "versions_of (db (world_of (step env c))) aid =
        versions_of (db (world_of c)) aid
        @ filter (\<lambda>v. version_article_id v = aid) (step_versions env c)"
    by (simp add: versions_of_def step_article_versions)
  moreover have "filter (\<lambda>v. version_article_id v = aid) (step_versions env c) =
      (if drafted env c \<and> aid = article_id (state_of c)
       then [hd (step_versions env c)] else [])"
  proof (cases "drafted env c")
    case True
    then have "step_versions env c = [hd (step_versions env c)]"
      and "version_article_id (hd (step_versions env c)) = article_id (state_of c)"
      using step_versions_drafted [of env c] by auto
    then show ?thesis using True by (metis (mono_tags, lifting) filter.simps)
  next
    case False
    then have "step_versions env c = []" using step_versions_drafted [of env c] by auto
    then show ?thesis using False by simp
  qed
  ultimately show ?thesis by simp
qed



text \<open>The next node does not depend on the status or the error of the state.\<close>

lemma step_next_node:
  "fst (step env (n, s\<lparr>status := x, error := y\<rparr>, w)) = fst (step env (n, s, w))"
proof (cases "n = Decide")
  case True
  have "fst (should_regenerate (s\<lparr>status := x, error := y\<rparr>)) = fst (should_regenerate s)"
    by (rule should_regenerate_inputs) simp_all
  then show ?thesis using True by (simp add: step_Decide del: step.simps)
next
  case False
  show ?thesis
  proof (cases "n = END")
    case True
    then show ?thesis by simp
  next
    case e: False
    show ?thesis using False e by (simp add: step_node)
  qed
qed

lemma calls_adapter_status:
  "calls_adapter n (s\<lparr>status := x, error := y\<rparr>) = calls_adapter n s"
  by (simp add: calls_adapter_def)

lemma step_calls:
  "calls (world_of (step env (n, s, w))) = calls w + (if calls_adapter n s then 1 else 0)"
proof (cases "n = Decide \<or> n = END")
  case True
  then show ?thesis
    by (auto simp add: step_Decide world_of_def calls_adapter_def simp del: step.simps)
      simp
next
  case False
  then have st: "step env (n, s, w) =
      (edge n, fst (node_function n env s w), snd (node_function n env s w))"
    by (simp add: step_node)
  show ?thesis unfolding st world_of_def using False
    by (cases n)
      (simp_all add: validator_defs calls_adapter_def validator_body_calls generate_frame
        regenerate_frame finalize_frame Let_def)
qed

section \<open>Properties of the runs\<close>

lemma run_add: "run (j + k) env c = run k env (run j env c)"
  by (induction j arbitrary: c) simp_all



lemma run_article_id: "article_id (state_of (run k env c)) = article_id (state_of c)"
  by (induction k arbitrary: c) (simp_all add: step_article_id)

lemma stage_appends_Cons:
  "stage_appends v (ob # os) =
     (if stage_name (obs_node ob) \<noteq> None then count_list (obs_appended ob) v else 0)
     + stage_appends v os"
  by (simp add: stage_appends_def)

lemma run_retry:
  "get_count (retry_counts (state_of (run k env c))) v =
     get_count (retry_counts (state_of c)) v + int (stage_appends v (observations k env c))"
proof (induction k arbitrary: c)
  case 0
  then show ?case by (simp add: stage_appends_def)
next
  case (Suc k)
  show ?case
    using Suc.IH [of "step env c"] step_retry [of env c v]
    by (simp add: stage_appends_Cons obs_node_observe)
qed

lemma run_retry_mono:
  "get_count (retry_counts (state_of (run k env c))) v
     \<le> get_count (retry_counts (state_of (run (k + j) env c))) v"
  using run_retry [of j env "run k env c" v] by (simp add: run_add)

lemma upt_first: "[Suc m..<Suc (Suc (m + d))] = Suc m # [Suc (Suc m)..<Suc (Suc m + d)]"
  by (simp add: upt_conv_Cons)

text \<open>
  The version numbers of the run's article after \<open>k\<close> steps: those it had, followed
  by the next numbers in order, one for each step that drafted.
\<close>

lemma run_version_numbers:
  "map version_number (versions_of (db (world_of (run k env c))) (article_id (state_of c))) =
     map version_number (versions_of (db (world_of c)) (article_id (state_of c)))
     @ map int [Suc (length (versions_of (db (world_of c)) (article_id (state_of c))))
                ..< Suc (length (versions_of (db (world_of c)) (article_id (state_of c)))
                         + drafts k env c)]"
proof (induction k arbitrary: c)
  case 0
  then show ?case by simp
next
  case (Suc k)
  let ?aid = "article_id (state_of c)"
  let ?m = "length (versions_of (db (world_of c)) ?aid)"
  have aid: "article_id (state_of (step env c)) = ?aid" by (rule step_article_id)
  have ih: "map version_number (versions_of (db (world_of (run k env (step env c)))) ?aid) =
     map version_number (versions_of (db (world_of (step env c))) ?aid)
     @ map int [Suc (length (versions_of (db (world_of (step env c))) ?aid))
                ..< Suc (length (versions_of (db (world_of (step env c))) ?aid)
                         + drafts k env (step env c))]"
    using Suc.IH [of "step env c"] aid by simp
  show ?case
  proof (cases "drafted env c")
    case True
    then have v: "versions_of (db (world_of (step env c))) ?aid =
        versions_of (db (world_of c)) ?aid @ [hd (step_versions env c)]"
      by (simp add: versions_of_step)
    have num: "version_number (hd (step_versions env c)) = int ?m + 1"
      using True step_versions_drafted [of env c] by simp
    show ?thesis using ih True
      by (simp add: v num upt_first del: upt_Suc)
  next
    case False
    then have v: "versions_of (db (world_of (step env c))) ?aid
        = versions_of (db (world_of c)) ?aid"
      by (simp add: versions_of_step)
    show ?thesis using ih False by (simp add: v del: upt_Suc)
  qed
qed


section \<open>The sample runs, evaluated\<close>

lemma run_numeral: "run (numeral v) env c = run (pred_numeral v) env (step env c)"
  by (simp add: numeral_eq_Suc)

lemma observations_numeral:
  "observations (numeral v) env c =
     observe c (step env c) # observations (pred_numeral v) env (step env c)"
  by (simp add: numeral_eq_Suc)

lemma drafts_numeral:
  "drafts (numeral v) env c =
     (if drafted env c then 1 else 0) + drafts (pred_numeral v) env (step env c)"
  by (simp add: numeral_eq_Suc)

lemmas run_eval = sample_config_def initial_config_def initial_state_def initial_world_def
  create_article_def empty_database_def req_str_def sample_env_def scored_def
  generate_node_def validate_structure_def validate_language_def validate_grammar_def
  validate_length_def validate_depth_def validate_readability_def validate_math_def
  validate_code_def validator_body_def no_metadata_def length_metadata_def
  readability_metadata_def field_or_def create_version_def versions_of_def
  save_checkpoint_def add_validation_log_def get_count_def MIN_SCORE_THRESHOLD_def
  MAX_RETRIES_def math_not_applicable_def code_not_applicable_def regenerate_node_def
  finalize_node_def should_regenerate_def conditional_edge_def mean_score_def
  PUBLISH_THRESHOLD_def update_article_def Let_def digit_def


lemma stale_observations_20:
  "map (\<lambda>ob. (obs_node ob, obs_appended ob)) (observations 20 stale_env sample_config) =
    [(Generate, []), (Validate_structure, []), (Validate_language, []),
     (Validate_grammar, [''grammar'']), (Validate_length, []), (Validate_math, []),
     (Validate_depth, []), (Validate_readability, []), (Validate_code, []), (Decide, []),
     (Regenerate, []), (Validate_structure, []), (Validate_language, []),
     (Validate_grammar, []), (Validate_length, []), (Validate_math, []),
     (Validate_depth, []), (Validate_readability, []), (Validate_code, []),
     (Decide, [''grammar''])]"
  by (simp add: observations_numeral run_eval stale_env_def observe_def state_of_def)

lemma failing_run_2:
  "(case run 2 failing_env sample_config of (n, s, w) \<Rightarrow> (n, status s, error s, calls w))
   = (Validate_language, ''error'', Some ''timeout'', 2)"
  by (simp add: run_numeral run_eval failing_env_def)

lemma failing_run_11:
  "(case run 11 failing_env sample_config of (n, s, w) \<Rightarrow>
      (n, status s, calls w, map fst (scores s)))
   = (END, ''completed'', 7,
      [''language'', ''grammar'', ''length'', ''math'', ''depth'', ''readability'', ''code''])"
  by (simp add: run_numeral run_eval failing_env_def)

lemma silent_run_1:
  "(case run 1 silent_env sample_config of (n, s, w) \<Rightarrow>
      (n, status s, article_versions (db w)))
   = (Validate_structure, ''error'', [])"
  by (simp add: run_eval silent_env_def)

section \<open>Retry counters along a run\<close>

lemma appends_map:
  "stage_appends v os =
     sum_list (map (\<lambda>(n, a). if stage_name n \<noteq> None then count_list a v else 0)
                   (map (\<lambda>ob. (obs_node ob, obs_appended ob)) os))
   \<and> policy_appends v os =
     sum_list (map (\<lambda>(n, a). if n = Decide then count_list a v else 0)
                   (map (\<lambda>ob. (obs_node ob, obs_appended ob)) os))"
  by (simp add: stage_appends_def policy_appends_def comp_def)

text \<open>
  Claim C2, as stated, fails: the decision policy appends to \<open>failed_nodes\<close> without
  touching the retry counters. In the stale run the grammar stage fails in the first
  pass (its counter becomes 1) and its call raises in the second, so its score of 6
  stays; after the second pass no stage is marked as failed, the mean is below 8.5, and
  the policy appends the grammar stage. After twenty steps the grammar stage has been
  appended twice, once by its validator and once by the policy, and its counter is 1.
\<close>

theorem retry_counts_miss_policy_appends:
  "get_count (retry_counts (state_of (run 20 stale_env sample_config))) ''grammar'' = 1
   \<and> stage_appends ''grammar'' (observations 20 stale_env sample_config) = 1
   \<and> policy_appends ''grammar'' (observations 20 stale_env sample_config) = 1
   \<and> get_count (retry_counts (state_of (run 20 stale_env sample_config))) ''grammar''
       < int (stage_appends ''grammar'' (observations 20 stale_env sample_config)
              + policy_appends ''grammar'' (observations 20 stale_env sample_config))"
proof -
  have s: "stage_appends ''grammar'' (observations 20 stale_env sample_config) = 1"
    by (simp add: appends_map [THEN conjunct1] stale_observations_20)
  have p: "policy_appends ''grammar'' (observations 20 stale_env sample_config) = 1"
    by (simp add: appends_map [THEN conjunct2] stale_observations_20)
  have z: "get_count (retry_counts (state_of sample_config)) ''grammar'' = 0"
    by (simp add: sample_config_def initial_config_def initial_state_def state_of_def
        get_count_def)
  have g: "get_count (retry_counts (state_of (run 20 stale_env sample_config))) ''grammar'' = 1"
    using run_retry [of 20 stale_env sample_config "''grammar''"] s z by simp
  show ?thesis using s p g by simp
qed

text \<open>
  Claim C2, amended. Along every run and for every validator name \<open>v\<close>, the retry
  counter of \<open>v\<close> after \<open>k\<close> steps is its value at the start plus the number of
  times a validator stage has appended \<open>v\<close> to \<open>failed_nodes\<close> so far; it never
  decreases as the run goes on; and the decision policy leaves the counters as they
  are, so its own appends are not counted.
\<close>

theorem retry_counts_count_stage_failures:
  "get_count (retry_counts (state_of (run k env c))) v =
     get_count (retry_counts (state_of c)) v + int (stage_appends v (observations k env c))
   \<and> get_count (retry_counts (state_of (run k env c))) v
       \<le> get_count (retry_counts (state_of (run (k + j) env c))) v
   \<and> retry_counts (state_of (step env (Decide, s, w))) = retry_counts s"
proof (intro conjI)
  show "get_count (retry_counts (state_of (run k env c))) v =
     get_count (retry_counts (state_of c)) v + int (stage_appends v (observations k env c))"
    by (rule run_retry)
  show "get_count (retry_counts (state_of (run k env c))) v
       \<le> get_count (retry_counts (state_of (run (k + j) env c))) v"
    by (rule run_retry_mono)
  show "retry_counts (state_of (step env (Decide, s, w))) = retry_counts s"
    using should_regenerate_frame [of s] by (simp add: step_Decide state_of_def del: step.simps)
qed

theorem retry_counts_count_stage_failures_witness:
  "get_count (retry_counts (state_of (run 4 stale_env sample_config))) ''grammar'' = 1
   \<and> stage_appends ''grammar'' (observations 4 stale_env sample_config) = 1"
proof -
  have o: "map (\<lambda>ob. (obs_node ob, obs_appended ob)) (observations 4 stale_env sample_config) =
    [(Generate, []), (Validate_structure, []), (Validate_language, []),
     (Validate_grammar, [''grammar''])]"
    by (simp add: observations_numeral run_eval stale_env_def observe_def state_of_def)
  have s: "stage_appends ''grammar'' (observations 4 stale_env sample_config) = 1"
    by (simp add: appends_map [THEN conjunct1] o)
  have z: "get_count (retry_counts (state_of sample_config)) ''grammar'' = 0"
    by (simp add: sample_config_def initial_config_def initial_state_def state_of_def
        get_count_def)
  from retry_counts_count_stage_failures [of 4 stale_env sample_config "''grammar''"]
  have "get_count (retry_counts (state_of (run 4 stale_env sample_config))) ''grammar'' =
     get_count (retry_counts (state_of sample_config)) ''grammar''
     + int (stage_appends ''grammar'' (observations 4 stale_env sample_config))"
    by blast
  then show ?thesis using s z by simp
qed

section \<open>The status along a run\<close>




section \<open>Errors along a run\<close>

text \<open>
  Claim C4, as stated, fails: the graph has no edge that looks at the status. In the
  failing run the call of the structure stage raises; after two steps the status is
  \<open>error\<close> and the run stands before the language stage; it goes on through all the
  other stages, which call the adapter (seven calls in all) and write their scores,
  through the decision and \<open>finalize\<close>, and ends after eleven steps.
\<close>

theorem error_status_does_not_halt_run:
  "status (state_of (run 2 failing_env sample_config)) = ''error''
   \<and> error (state_of (run 2 failing_env sample_config)) = Some ''timeout''
   \<and> fst (run 2 failing_env sample_config) = Validate_language
   \<and> calls (world_of (run 2 failing_env sample_config)) = 2
   \<and> fst (run 11 failing_env sample_config) = END
   \<and> calls (world_of (run 11 failing_env sample_config)) = 7
   \<and> map fst (scores (state_of (run 11 failing_env sample_config)))
       = [''language'', ''grammar'', ''length'', ''math'', ''depth'', ''readability'', ''code'']"
  using failing_run_2 failing_run_11
  by (simp add: state_of_def world_of_def split: prod.splits)

text \<open>
  Claim C4, amended. A validator stage whose adapter call raises sets the status to
  \<open>error\<close>, records the message and hands the state on to the next node of the graph.
  The controller does not check the status: the node that follows is the same whatever
  the status and the error of the state are, and a node that calls the adapter does so
  whatever they are.
\<close>

theorem error_status_is_not_checked:
  "(stage_name n \<noteq> None \<and> calls_adapter n s \<and> validate_content env (calls w) = Raises e
      \<longrightarrow> status (state_of (step env (n, s, w))) = ''error''
          \<and> error (state_of (step env (n, s, w))) = Some e
          \<and> fst (step env (n, s, w)) = edge n)
   \<and> fst (step env (n, s\<lparr>status := x, error := y\<rparr>, w)) = fst (step env (n, s, w))
   \<and> calls (world_of (step env (n, s\<lparr>status := x, error := y\<rparr>, w)))
       = calls w + (if calls_adapter n s then 1 else 0)"
proof (intro conjI impI)
  assume a: "stage_name n \<noteq> None \<and> calls_adapter n s
      \<and> validate_content env (calls w) = Raises e"
  then obtain v where v: "stage_name n = Some v" by auto
  then have "n \<noteq> Decide" "n \<noteq> END" by auto
  then have st: "step env (n, s, w) =
      (edge n, fst (node_function n env s w), snd (node_function n env s w))"
    by (simp add: step_node)
  have r: "status (fst (node_function n env s w)) = ''error''
     \<and> error (fst (node_function n env s w)) = Some e"
    using v a by (intro stage_raises) simp_all
  show "status (state_of (step env (n, s, w))) = ''error''"
    unfolding st using r by (simp add: state_of_def)
  show "error (state_of (step env (n, s, w))) = Some e"
    unfolding st using r by (simp add: state_of_def)
  show "fst (step env (n, s, w)) = edge n" unfolding st by simp
next
  show "fst (step env (n, s\<lparr>status := x, error := y\<rparr>, w)) = fst (step env (n, s, w))"
    by (rule step_next_node)
next
  show "calls (world_of (step env (n, s\<lparr>status := x, error := y\<rparr>, w)))
       = calls w + (if calls_adapter n s then 1 else 0)"
    using step_calls [of env n "s\<lparr>status := x, error := y\<rparr>" w]
    by (simp only: calls_adapter_status)
qed

theorem error_status_is_not_checked_witness:
  "stage_name Validate_structure \<noteq> None
   \<and> calls_adapter Validate_structure (state_of sample_config)
   \<and> validate_content silent_env (calls (world_of sample_config)) = Raises ''timeout''
   \<and> status (state_of (step silent_env
         (Validate_structure, state_of sample_config, world_of sample_config))) = ''error''
   \<and> fst (step silent_env
         (Validate_structure, state_of sample_config, world_of sample_config))
       = Validate_language"
proof -
  have a: "stage_name Validate_structure \<noteq> None" by simp
  have b: "calls_adapter Validate_structure (state_of sample_config)"
    by (simp add: calls_adapter_def)
  have c: "validate_content silent_env (calls (world_of sample_config)) = Raises ''timeout''"
    by (simp add: silent_env_def sample_env_def)
  from error_status_is_not_checked [of Validate_structure "state_of sample_config" silent_env
      "world_of sample_config" "''timeout''"] a b c
  have "status (state_of (step silent_env
         (Validate_structure, state_of sample_config, world_of sample_config))) = ''error''"
    and "fst (step silent_env
         (Validate_structure, state_of sample_config, world_of sample_config))
       = edge Validate_structure"
    by blast+
  then show ?thesis using a b c by simp
qed

section \<open>Versions along a run\<close>

text \<open>
  Claim C8, as stated, fails: a generate transition whose adapter call raises appends
  no version. With an adapter that raises, the first step of a run sets the status to
  \<open>error\<close>, goes on to the structure stage and leaves the table of versions empty.
\<close>

theorem failed_generation_appends_no_version:
  "fst sample_config = Generate
   \<and> fst (run 1 silent_env sample_config) = Validate_structure
   \<and> status (state_of (run 1 silent_env sample_config)) = ''error''
   \<and> article_versions (db (world_of (run 1 silent_env sample_config))) = []"
  using silent_run_1
  by (simp add: state_of_def world_of_def sample_config_def initial_config_def
      split: prod.splits)

lemma create_version_numbers:
  "map version_number (versions_of (create_version d aid txt scs nm) aid) =
     map version_number (versions_of d aid) @ [int (length (versions_of d aid)) + 1]"
  by (simp add: versions_of_def create_version_def Let_def)

text \<open>
  Claim C8, amended. \<open>create_version\<close> gives the new version of an article the number
  of its versions so far plus one. A step appends one version when it is a generate or
  regenerate transition whose adapter call returns, and none otherwise. So for an
  article without versions at the start of its run, the version numbers after \<open>k\<close>
  steps are 1, 2, 3, \<dots> without gaps, one for each generate or regenerate transition
  so far whose adapter call returned.
\<close>

theorem version_numbers_count_drafts:
  "map version_number (versions_of (create_version d aid txt scs nm) aid) =
     map version_number (versions_of d aid) @ [int (length (versions_of d aid)) + 1]
   \<and> article_versions (db (world_of (step env c))) =
       article_versions (db (world_of c)) @ step_versions env c
   \<and> length (step_versions env c) = (if drafted env c then 1 else 0)
   \<and> (versions_of (db (world_of c)) (article_id (state_of c)) = [] \<longrightarrow>
        map version_number
          (versions_of (db (world_of (run k env c))) (article_id (state_of c)))
          = map int [1..<Suc (drafts k env c)])"
proof (intro conjI impI)
  show "map version_number (versions_of (create_version d aid txt scs nm) aid) =
     map version_number (versions_of d aid) @ [int (length (versions_of d aid)) + 1]"
    by (rule create_version_numbers)
  show "article_versions (db (world_of (step env c))) =
       article_versions (db (world_of c)) @ step_versions env c"
    by (rule step_article_versions)
  show "length (step_versions env c) = (if drafted env c then 1 else 0)"
    using step_versions_drafted [of env c] by (metis length_Cons list.size(3) One_nat_def)
next
  assume "versions_of (db (world_of c)) (article_id (state_of c)) = []"
  then show "map version_number
          (versions_of (db (world_of (run k env c))) (article_id (state_of c)))
          = map int [1..<Suc (drafts k env c)]"
    using run_version_numbers [of k env c] by simp
qed

theorem version_numbers_count_drafts_witness:
  "versions_of (db (world_of sample_config)) (article_id (state_of sample_config)) = []
   \<and> drafts 11 stale_env sample_config = 2
   \<and> map version_number
        (versions_of (db (world_of (run 11 stale_env sample_config)))
           (article_id (state_of sample_config))) = [1, 2]"
proof -
  have a: "versions_of (db (world_of sample_config)) (article_id (state_of sample_config)) = []"
    by (simp add: sample_config_def initial_config_def initial_state_def initial_world_def
        state_of_def world_of_def create_article_def empty_database_def versions_of_def)
  have d: "drafts 11 stale_env sample_config = 2"
    by (simp add: drafts_numeral drafted_def run_eval stale_env_def)
  from version_numbers_count_drafts [of _ _ _ _ _ stale_env sample_config 11] a
  have "map version_number
        (versions_of (db (world_of (run 11 stale_env sample_config)))
           (article_id (state_of sample_config)))
      = map int [1..<Suc (drafts 11 stale_env sample_config)]"
    by blast
  then show ?thesis using a d by (simp add: upt_rec)
qed

section \<open>Properties of the equation handler\<close>













end
